theory Spec2Isabelle
  imports Main
begin

section \<open>Data model of \<open>src/App.tsx\<close>\<close>

text \<open>
  The quiz tool is one React file: a shared hook \<open>useRoomCore\<close>, the game master's page
  \<open>GMPage\<close> and the participant's page \<open>PlayerPage\<close>. The TypeScript types \<open>Player\<close>,
  \<open>Round\<close> and \<open>RankRow\<close> become records, the union types become datatypes. Identifiers
  are strings, as in the source; JavaScript numbers that only ever hold integers are
  \<open>int\<close>. Time stamps (\<open>created_at\<close>, \<open>opened_at\<close>, \<open>reveal_at\<close>) and \<open>elapsed_sec\<close> are
  written or displayed by the client but never enter a decision, so the records leave
  them out.
\<close>

datatype Choice = A | B | C | D

datatype RoundStatus = Ready | Open | Closed | Scored

record Player =
  id_player :: string
  room_code_player :: string
  display_name :: string
  total_score :: int

text \<open>
  \<open>reveal_started\<close> has the type \<open>boolean | null\<close> and may be missing: \<open>None\<close> stands for
  both \<open>null\<close> and \<open>undefined\<close>, which every test of the source treats alike.
\<close>

record Round =
  id_round :: string
  room_code_round :: string
  index_no :: int
  status :: RoundStatus
  correct_choice :: "Choice option"
  reveal_started :: "bool option"

record RankRow =
  round_id :: string
  player_id :: string
  choice :: Choice
  rank :: int

section \<open>The shared store\<close>

text \<open>
  The datastore (Supabase tables, the ranking view and the stored procedure) is not part
  of the repository; the client only calls it. The definitions of this section are
  modelled from sections 3, 4.3 and 6 of the specification, each under a remark that
  says so. A flag \<open>down\<close> stands for the backend being unreachable: every call then
  fails and changes nothing, which lets the client's error branches run.
\<close>

datatype StoreError = StoreError (err_code: string) (err_message: string)

text \<open>The \<open>payload\<close> object that \<open>answer\<close> inserts into the table \<open>answers\<close>.\<close>

record Answer =
  room_code_answer :: string
  round_id_answer :: string
  player_id_answer :: string
  choice_answer :: Choice

text \<open>
  Modelled from the spec: the tables \<open>players\<close>, \<open>rounds\<close> and \<open>answers\<close> of section 6,
  rows in insertion order; the derived ranking view, whose rows are taken as given
  (\<open>rank_view\<close>); a counter for the identifiers the store hands out; and a log of the
  calls of the scoring procedure that reached the interface
  (round id and the three weights).
\<close>

record Store =
  down :: bool
  players_tbl :: "Player list"
  rounds_tbl :: "Round list"
  answers_tbl :: "Answer list"
  rank_view :: "RankRow list"
  next_id :: nat
  rpc_log :: "(string \<times> int \<times> int \<times> int) list"

definition unavailable :: StoreError where
  "unavailable = StoreError ''unavailable'' ''backend unreachable''"

text \<open>
  Modelled from the spec: \<open>players(...)\<close> read for a room, ordered by \<open>created_at\<close>
  (section 6); insertion order is creation order.
\<close>

definition select_players :: "Store \<Rightarrow> string \<Rightarrow> StoreError + Player list" where
  "select_players s rc =
     (if down s then Inl unavailable
      else Inr (filter (\<lambda>p. room_code_player p = rc) (players_tbl s)))"

text \<open>
  Modelled from the spec: \<open>rounds(...)\<close> read for a room, ordered by \<open>index_no\<close>
  ascending (section 6, and the query of \<open>refreshRounds\<close>).
\<close>

definition select_rounds :: "Store \<Rightarrow> string \<Rightarrow> StoreError + Round list" where
  "select_rounds s rc =
     (if down s then Inl unavailable
      else Inr (sort_key index_no (filter (\<lambda>r. room_code_round r = rc) (rounds_tbl s))))"

text \<open>
  Modelled from the spec: the query of \<open>nextIndexNo\<close>, the \<open>index_no\<close> column of the
  room's rounds in descending order, limited to one row.
\<close>

definition select_top_index_no :: "Store \<Rightarrow> string \<Rightarrow> StoreError + int list" where
  "select_top_index_no s rc =
     (if down s then Inl unavailable
      else Inr (take 1 (rev (sort_key (\<lambda>i. i)
                  (map index_no (filter (\<lambda>r. room_code_round r = rc) (rounds_tbl s)))))))"

text \<open>
  Modelled from the spec: the derived ranking view keyed by round, read in ascending
  order of rank (section 6).
\<close>

definition select_rank :: "Store \<Rightarrow> string \<Rightarrow> StoreError + RankRow list" where
  "select_rank s rid =
     (if down s then Inl unavailable
      else Inr (sort_key rank (filter (\<lambda>r. round_id r = rid) (rank_view s))))"

text \<open>
  Modelled from the spec: the look-up of the answer of one (round, participant) pair
  with \<open>maybeSingle\<close>, as \<open>PlayerPage\<close> reads it: the row's choice when exactly one row
  matches, no data otherwise (no row, several rows, or the backend unreachable).
\<close>

definition select_answer_choice :: "Store \<Rightarrow> string \<Rightarrow> string \<Rightarrow> Choice option" where
  "select_answer_choice s rid pid =
     (if down s then None
      else (case filter (\<lambda>a. round_id_answer a = rid \<and> player_id_answer a = pid) (answers_tbl s) of
              [a] \<Rightarrow> Some (choice_answer a)
            | _ \<Rightarrow> None))"

text \<open>
  Modelled from the spec: insertion into \<open>answers\<close> under the uniqueness constraint on
  (\<open>round_id\<close>, \<open>player_id\<close>) of section 6. A second row for the same pair is
  rejected with the code 23505 (unique violation) and the table is left as it was.
\<close>

definition insert_answer :: "Store \<Rightarrow> Answer \<Rightarrow> StoreError option \<times> Store" where
  "insert_answer s a =
     (if down s then (Some unavailable, s)
      else if \<exists>b \<in> set (answers_tbl s).
                round_id_answer b = round_id_answer a \<and> player_id_answer b = player_id_answer a
      then (Some (StoreError ''23505'' ''duplicate key value violates unique constraint''), s)
      else (None, s\<lparr>answers_tbl := answers_tbl s @ [a]\<rparr>))"

text \<open>
  Modelled from the spec: the identifiers of new rows are chosen by the store. The
  model numbers them and writes the number in decimal.
\<close>

fun string_of_nat :: "nat \<Rightarrow> string" where
  "string_of_nat n =
     (if n < 10 then [char_of (48 + n)]
      else string_of_nat (n div 10) @ [char_of (48 + n mod 10)])"

declare string_of_nat.simps [simp del]

text \<open>
  Modelled from the spec: insertion of a round (the \<open>insert(...).select().single()\<close> of
  \<open>newRound\<close>); the store adds the identifier and returns the new row.
\<close>

definition insert_round ::
  "Store \<Rightarrow> string \<Rightarrow> RoundStatus \<Rightarrow> int \<Rightarrow> bool option \<Rightarrow> (StoreError + Round) \<times> Store" where
  "insert_round s rc st idx rs =
     (if down s then (Inl unavailable, s)
      else
        let r = \<lparr>id_round = CHR ''r'' # string_of_nat (next_id s), room_code_round = rc,
                 index_no = idx, status = st, correct_choice = None, reveal_started = rs\<rparr>
        in (Inr r, s\<lparr>rounds_tbl := rounds_tbl s @ [r], next_id := Suc (next_id s)\<rparr>))"

text \<open>
  Modelled from the spec: the single write of \<open>startReveal\<close>,
  \<open>update({reveal_started: true, reveal_at}).eq('id', id)\<close>. Every row with that
  identifier is updated; updating no row is not an error.
\<close>

definition update_reveal_started :: "Store \<Rightarrow> string \<Rightarrow> StoreError option \<times> Store" where
  "update_reveal_started s rid =
     (if down s then (Some unavailable, s)
      else (None, s\<lparr>rounds_tbl :=
              map (\<lambda>r. if id_round r = rid then r\<lparr>reveal_started := Some True\<rparr> else r)
                (rounds_tbl s)\<rparr>))"

text \<open>
  Modelled from the spec: the points of section 4.3, \<open>weights[0]\<close> for rank 1,
  \<open>weights[1]\<close> for rank 2, \<open>weights[2]\<close> for every later rank.
\<close>

definition award :: "int \<Rightarrow> int \<Rightarrow> int \<Rightarrow> int \<Rightarrow> int" where
  "award p_first p_second p_other rk =
     (if rk = 1 then p_first else if rk = 2 then p_second else p_other)"

text \<open>
  Modelled from the spec: what one participant gains in a round, summed over the rows
  of the ranking view for that round and participant whose choice is the correct one.
\<close>

definition points_for :: "Store \<Rightarrow> Round \<Rightarrow> int \<Rightarrow> int \<Rightarrow> int \<Rightarrow> string \<Rightarrow> int" where
  "points_for s r p_first p_second p_other pid =
     sum_list (map (\<lambda>x. award p_first p_second p_other (rank x))
       (filter (\<lambda>x. round_id x = id_round r \<and> player_id x = pid \<and>
                    correct_choice r = Some (choice x)) (rank_view s)))"

text \<open>
  Modelled from the spec: the atomic scoring operation of sections 4.3, 5 and 6,
  \<open>apply_scores_for_round(p_round_id, p_first, p_second, p_other)\<close>. It applies the
  points to the cumulative scores and flips the round to \<open>scored\<close> as one unit, fails
  with no effect when the round does not exist or has no correct choice, and does
  nothing for a round that is already \<open>scored\<close>. Every call that is issued is logged.
\<close>

definition apply_scores_for_round ::
  "Store \<Rightarrow> string \<Rightarrow> int \<Rightarrow> int \<Rightarrow> int \<Rightarrow> StoreError option \<times> Store" where
  "apply_scores_for_round s0 rid p_first p_second p_other =
     (let s = s0\<lparr>rpc_log := rpc_log s0 @ [(rid, p_first, p_second, p_other)]\<rparr> in
      if down s then (Some unavailable, s)
      else (case find (\<lambda>r. id_round r = rid) (rounds_tbl s) of
              None \<Rightarrow> (Some (StoreError ''P0001'' ''round not found''), s)
            | Some r \<Rightarrow>
               if correct_choice r = None
               then (Some (StoreError ''P0001'' ''correct choice not set''), s)
               else if status r = Scored then (None, s)
               else (None, s\<lparr>
                 players_tbl :=
                   map (\<lambda>p. p\<lparr>total_score := total_score p
                                + points_for s r p_first p_second p_other (id_player p)\<rparr>)
                     (players_tbl s),
                 rounds_tbl :=
                   map (\<lambda>x. if id_round x = rid then x\<lparr>status := Scored\<rparr> else x)
                     (rounds_tbl s)\<rparr>)))"

section \<open>Client state\<close>

text \<open>
  The state of the hook \<open>useRoomCore\<close>: its five \<open>useState\<close> cells.
\<close>

record RoomCore =
  roomCode :: string
  players :: "Player list"
  rounds :: "Round list"
  current :: "Round option"
  ranks :: "RankRow list"

text \<open>
  A message shown with \<open>window.alert\<close>. The texts of the source are Japanese; each
  constructor stands for one call site, with the store's message where the source
  appends it.
\<close>

datatype Alert =
    AlertCreateRoomFirst
  | AlertRoundInProgress
  | AlertRoundCreateError string
  | AlertScoreError string
  | AlertChooseCorrectFirst
  | AlertRevealError string

text \<open>
  Both pages declare the same three cells for the reveal: \<open>revealActive\<close>,
  \<open>revealShown\<close> and the ref \<open>revealTimer\<close>. They are declared once here, on top of
  the hook's state, together with what the browser holds for the page: the interval
  timers that are running (handle and the list length \<open>correctOnlyRanks.length\<close> that
  the callback's closure captured when \<open>setInterval\<close> was called), the last handle
  handed out, and the alerts shown so far.
\<close>

record Client = RoomCore +
  revealActive :: bool
  revealShown :: int
  revealTimer :: "nat option"
  intervals :: "(nat \<times> nat) list"
  last_handle :: nat
  alerts :: "Alert list"

text \<open>
  The remaining cells of \<open>GMPage\<close> that a handler reads: the three weights, which
  are numbers typed into input fields and are taken as integers here, and the scoring
  guard. The cell \<open>room\<close> only decides whether the entry form is shown.
\<close>

record GMPage = Client +
  w1 :: int
  w2 :: int
  wOther :: int
  isScoring :: bool

text \<open>
  The remaining cells of \<open>PlayerPage\<close>. \<open>cleanup_pending\<close> says that the last run of the
  reveal effect returned a cleanup function, which React calls before the next run.
  \<open>lookups\<close> holds the look-ups of the participant's own answer that were sent and
  have not been answered yet, oldest first, each with the round id and the participant
  id its closure captured.
\<close>

record PlayerPage = Client +
  me :: "Player option"
  myAnswerChoice :: "Choice option"
  prevRoundId :: "string option"
  cleanup_pending :: bool
  lookups :: "(string \<times> string) list"

text \<open>
  A handler is a closure of the render in which it was created: it reads the cells as
  they were in that render, while the state setters and the refs act on the page as it
  is. A handler written as one function of the page below runs to its end on the
  state of the latest render. A handler given in two halves (\<open>answer\<close>,
  \<open>startReveal\<close>) awaits the store in between: the second half takes the render of
  the first half and the page as it is when the store replies. The same holds for the
  look-up that an effect of \<open>PlayerPage\<close> sends without waiting for it.
\<close>

definition alert :: "Alert \<Rightarrow> 'a Client_scheme \<Rightarrow> 'a Client_scheme" where
  "alert a st = st\<lparr>alerts := alerts st @ [a]\<rparr>"

subsection \<open>Browser timers\<close>

text \<open>
  \<open>window.setInterval\<close> returns a new handle greater than zero and
  \<open>window.clearInterval\<close> stops the timer with the given handle. The guard
  \<open>if (revealTimer.current)\<close> tests the handle for truthiness: \<open>null\<close> and 0 fail it.
\<close>

definition setInterval :: "nat \<Rightarrow> 'a Client_scheme \<Rightarrow> nat \<times> 'a Client_scheme" where
  "setInterval k st =
     (let h = Suc (last_handle st)
      in (h, st\<lparr>intervals := intervals st @ [(h, k)], last_handle := h\<rparr>))"

definition clearInterval :: "nat \<Rightarrow> 'a Client_scheme \<Rightarrow> 'a Client_scheme" where
  "clearInterval h st = st\<lparr>intervals := filter (\<lambda>(h', k). h' \<noteq> h) (intervals st)\<rparr>"

definition clear_revealTimer :: "'a Client_scheme \<Rightarrow> 'a Client_scheme" where
  "clear_revealTimer st =
     (case revealTimer st of
        None \<Rightarrow> st
      | Some h \<Rightarrow> if h \<noteq> 0 then clearInterval h st else st)"

section \<open>The hook \<open>useRoomCore\<close>\<close>

definition refreshPlayers :: "Store \<Rightarrow> 'a RoomCore_scheme \<Rightarrow> 'a RoomCore_scheme" where
  "refreshPlayers s st =
     (if roomCode st = [] then st
      else (case select_players s (roomCode st) of
              Inl e \<Rightarrow> st
            | Inr data \<Rightarrow> st\<lparr>players := data\<rparr>))"

definition refreshRanks :: "Store \<Rightarrow> string \<Rightarrow> 'a RoomCore_scheme \<Rightarrow> 'a RoomCore_scheme" where
  "refreshRanks s roundId st =
     (case select_rank s roundId of
        Inl e \<Rightarrow> st
      | Inr data \<Rightarrow> st\<lparr>ranks := data\<rparr>)"

text \<open>
  The updater that \<open>refreshRounds\<close> passes to \<open>setCurrent\<close> (lines 120 to 133):
  \<open>list\<close> is the fetched list, \<open>prev\<close> the selection so far.
\<close>

definition nextCurrent :: "Round list \<Rightarrow> Round option \<Rightarrow> Round option" where
  "nextCurrent list prev =
     (if list = [] then None
      else
        let latest = last list in
        (case prev of
           None \<Rightarrow> Some latest
         | Some p \<Rightarrow>
            (case find (\<lambda>r. id_round r = id_round p) list of
               None \<Rightarrow> Some latest
             | Some same \<Rightarrow>
                if status same = Scored \<and> index_no latest > index_no same
                then Some latest
                else Some same)))"

text \<open>
  \<open>refreshRounds\<close> (lines 108 to 137). After the two state updates it calls
  \<open>refreshRanks\<close> for the last round of the list (\<open>list[list.length - 1]\<close>), when
  that has a non-empty id, and does not wait for it: the page renders and runs its
  effects before the ranks arrive. The function therefore returns the updated state
  and the round id of the pending \<open>refreshRanks\<close> call, if any.
\<close>

definition refreshRounds :: "Store \<Rightarrow> 'a RoomCore_scheme \<Rightarrow> 'a RoomCore_scheme \<times> string option" where
  "refreshRounds s st =
     (if roomCode st = [] then (st, None)
      else (case select_rounds s (roomCode st) of
              Inl e \<Rightarrow> (st, None)
            | Inr list \<Rightarrow>
               (st\<lparr>rounds := list, current := nextCurrent list (current st)\<rparr>,
                if list \<noteq> [] \<and> id_round (last list) \<noteq> []
                then Some (id_round (last list)) else None)))"

definition pending_refreshRanks ::
  "Store \<Rightarrow> string option \<Rightarrow> 'a RoomCore_scheme \<Rightarrow> 'a RoomCore_scheme" where
  "pending_refreshRanks s req st =
     (case req of None \<Rightarrow> st | Some roundId \<Rightarrow> refreshRanks s roundId st)"

text \<open>
  The effect of the hook (lines 53 to 95), with the dependencies \<open>roomCode\<close> and
  \<open>current?.id\<close>: after a render in which one of them differs from the render
  before, and with a room code, it calls \<open>refreshPlayers\<close> and \<open>refreshRounds\<close> and
  renews the subscription. The predicate says whether the two calls are made. They
  are modelled for the button of the round history (\<open>GMPage_viewRound\<close>), where no
  other refresh follows the change of the selection. Where the selection is changed by
  \<open>refreshRounds\<close> itself or by \<open>newRound\<close>, which calls \<open>refreshRounds\<close> right
  after, the calls of the effect read the same rows once more and are not repeated in
  the model.
\<close>

definition useRoomCore_effect :: "'a RoomCore_scheme \<Rightarrow> 'a RoomCore_scheme \<Rightarrow> bool" where
  "useRoomCore_effect old new =
     (roomCode new \<noteq> [] \<and>
      (roomCode new \<noteq> roomCode old
       \<or> map_option id_round (current new) \<noteq> map_option id_round (current old)))"

definition goTopLocalOnly :: "'a RoomCore_scheme \<Rightarrow> 'a RoomCore_scheme" where
  "goTopLocalOnly st = st\<lparr>roomCode := [], players := [], rounds := [], current := None, ranks := []\<rparr>"

text \<open>
  The memo \<open>correctOnlyRanks\<close> of both pages: the rows whose choice is the current
  round's correct choice, none when there is no current round or no correct choice.
\<close>

definition correctOnlyRanks :: "'a RoomCore_scheme \<Rightarrow> RankRow list" where
  "correctOnlyRanks st =
     (case current st of
        None \<Rightarrow> []
      | Some c \<Rightarrow>
         (case correct_choice c of
            None \<Rightarrow> []
          | Some cc \<Rightarrow> filter (\<lambda>r. choice r = cc) (ranks st)))"

section \<open>The reveal timer\<close>

text \<open>
  The callback both pages pass to \<open>setInterval\<close> (lines 225 to 234 and 782 to 791),
  run for the timer with handle \<open>h\<close>; a timer that was cleared does not fire. \<open>k\<close> is
  the captured \<open>correctOnlyRanks.length\<close>.
\<close>

definition interval_tick :: "nat \<Rightarrow> 'a Client_scheme \<Rightarrow> 'a Client_scheme" where
  "interval_tick h st =
     (case map_of (intervals st) h of
        None \<Rightarrow> st
      | Some k \<Rightarrow>
         let next = revealShown st + 1;
             st1 = (if next \<ge> int k then (clear_revealTimer st)\<lparr>revealTimer := None\<rparr> else st)
         in st1\<lparr>revealShown := min next (int k)\<rparr>)"

text \<open>The part of both start paths after their guards: lines 223 to 234 and 780 to 791.\<close>

definition start_stepping :: "'a Client_scheme \<Rightarrow> 'a Client_scheme" where
  "start_stepping st =
     (let (h, st1) = setInterval (length (correctOnlyRanks st))
                       (st\<lparr>revealActive := True, revealShown := 1\<rparr>)
      in st1\<lparr>revealTimer := Some h\<rparr>)"

text \<open>
  What both pages do to stop the reveal (lines 213 to 218 and 770 to 775): the timer is
  cleared and the ref reset only when the ref holds a truthy handle.
\<close>

definition reset_reveal :: "'a Client_scheme \<Rightarrow> 'a Client_scheme" where
  "reset_reveal st =
     (let st1 = st\<lparr>revealActive := False, revealShown := 0\<rparr>
      in (case revealTimer st1 of
            None \<Rightarrow> st1
          | Some h \<Rightarrow> if h \<noteq> 0 then (clearInterval h st1)\<lparr>revealTimer := None\<rparr> else st1))"

section \<open>Reveal rendering\<close>

text \<open>
  \<open>showCountFromBottom\<close> of both pages: \<open>revealActive ? revealShown : 0\<close>.
\<close>

definition showCountFromBottom :: "'a Client_scheme \<Rightarrow> int" where
  "showCountFromBottom st = (if revealActive st then revealShown st else 0)"

text \<open>
  \<open>arr.map((r, idx, arr) => ...)\<close>: the list item of every row with its index, and the
  flag \<open>visible = arr.length - 1 - idx < count\<close> that sets its opacity to 1.
\<close>

definition rank_items :: "RankRow list \<Rightarrow> int \<Rightarrow> (RankRow \<times> bool) list" where
  "rank_items arr cnt =
     map (\<lambda>(idx, r). (r, int (length arr) - 1 - int idx < cnt)) (enumerate 0 arr)"

text \<open>
  The ranking list of \<open>GMPage\<close> (lines 595 to 641). It is rendered only when
  \<open>current?.correct_choice && current?.reveal_started\<close>; otherwise, and when no row has
  the correct choice, a text line stands in its place and there is no list item. The
  panel around it is rendered only for a non-empty \<open>roomCode\<close>; with a correct choice
  set, the panel's own condition (line 518) holds.
\<close>

definition GMPage_rank_list :: "GMPage \<Rightarrow> (RankRow \<times> bool) list" where
  "GMPage_rank_list gm =
     (if roomCode gm = [] then []
      else (case current gm of
        None \<Rightarrow> []
      | Some c \<Rightarrow>
         (case correct_choice c of
            None \<Rightarrow> []
          | Some cc \<Rightarrow>
             if reveal_started c = Some True
             then rank_items (filter (\<lambda>r. choice r = cc) (ranks gm)) (showCountFromBottom gm)
             else [])))"

text \<open>
  The ranking list of \<open>PlayerPage\<close> (lines 966 to 1006), inside \<open>me && current\<close>; the
  count is the inlined \<open>revealActive ? revealShown : 0\<close>.
\<close>

definition PlayerPage_rank_list :: "PlayerPage \<Rightarrow> (RankRow \<times> bool) list" where
  "PlayerPage_rank_list st =
     (case me st of
        None \<Rightarrow> []
      | Some _ \<Rightarrow>
         (case current st of
            None \<Rightarrow> []
          | Some c \<Rightarrow>
             if reveal_started c = Some True
             then (case correct_choice c of
                     None \<Rightarrow> []
                   | Some cc \<Rightarrow>
                      rank_items (filter (\<lambda>r. choice r = cc) (ranks st))
                        (if revealActive st then revealShown st else 0))
             else []))"

text \<open>The entry at position \<open>idx\<close> of a rendered list is on screen and visible.\<close>

definition visible_at :: "(RankRow \<times> bool) list \<Rightarrow> nat \<Rightarrow> bool" where
  "visible_at items idx = (idx < length items \<and> snd (items ! idx))"

section \<open>The game master's page\<close>

definition GMPage_init :: GMPage where
  "GMPage_init =
     \<lparr>roomCode = [], players = [], rounds = [], current = None, ranks = [],
      revealActive = False, revealShown = 0, revealTimer = None, intervals = [],
      last_handle = 0, alerts = [],
      w1 = 100, w2 = 70, wOther = 20, isScoring = False\<rparr>"

text \<open>
  The effect with the dependency \<open>current?.id\<close> (lines 211 to 219): React runs it
  after a render in which the id of the current round differs from the one of the
  render before. \<open>old\<close> is the state before the update, \<open>new\<close> the state after it.
\<close>

definition GMPage_effects :: "GMPage \<Rightarrow> GMPage \<Rightarrow> GMPage" where
  "GMPage_effects old new =
     (if map_option id_round (current new) \<noteq> map_option id_round (current old)
      then reset_reveal new
      else new)"

definition startRevealLocal :: "GMPage \<Rightarrow> GMPage" where
  "startRevealLocal gm =
     (if correctOnlyRanks gm = [] \<or> revealActive gm then gm
      else start_stepping gm)"

text \<open>
  A call of \<open>refreshRounds\<close> on this page, as for a change notification for \<open>rounds\<close>
  (line 79): the state updates, the effects of the render that follows, then the
  ranks. No effect of the page depends on \<open>ranks\<close>.
\<close>

definition GMPage_refreshRounds :: "Store \<Rightarrow> GMPage \<Rightarrow> GMPage" where
  "GMPage_refreshRounds s gm =
     (case refreshRounds s gm of
        (gm1, req) \<Rightarrow> pending_refreshRanks s req (GMPage_effects gm gm1))"

text \<open>
  The button of the round history (lines 476 to 479): \<open>setCurrent(r)\<close> and
  \<open>refreshRanks(r.id)\<close>. The click itself sets the selection, and the render that
  follows runs the page's effect. Three calls are then under way: the handler's
  \<open>refreshRanks\<close> and, the id of the current round having changed, the
  \<open>refreshPlayers\<close> and \<open>refreshRounds\<close> of the hook's effect. \<open>GMPage_viewRound\<close> is
  the page once all three have been answered, in the order in which they were sent.
  The last of them is a \<open>refreshRounds\<close> like any other: it moves the selection on to
  the latest round again when the round looked at is \<open>scored\<close> and not the latest.
\<close>

definition GMPage_viewRound_click :: "Round \<Rightarrow> GMPage \<Rightarrow> GMPage" where
  "GMPage_viewRound_click r gm = GMPage_effects gm (gm\<lparr>current := Some r\<rparr>)"

definition GMPage_viewRound :: "Store \<Rightarrow> Round \<Rightarrow> GMPage \<Rightarrow> GMPage" where
  "GMPage_viewRound s r gm =
     (let gm1 = GMPage_viewRound_click r gm;
          gm2 = refreshRanks s (id_round r) gm1
      in if useRoomCore_effect gm gm1
         then GMPage_refreshRounds s (refreshPlayers s gm2)
         else gm2)"

text \<open>
  \<open>nextIndexNo\<close> throws on a store error; \<open>newRound\<close> does not catch it, so the
  error ends the handler.
\<close>

definition nextIndexNo :: "Store \<Rightarrow> GMPage \<Rightarrow> StoreError + int" where
  "nextIndexNo s gm =
     (case select_top_index_no s (roomCode gm) of
        Inl e \<Rightarrow> Inl e
      | Inr data \<Rightarrow> Inr (case data of [] \<Rightarrow> 1 | i # _ \<Rightarrow> i + 1))"

text \<open>
  \<open>newRound\<close> (lines 267 to 289). After a successful insert, \<open>setCurrent(data)\<close> is
  followed by the page's effects and then by \<open>refreshRounds()\<close>.
\<close>

definition newRound :: "Store \<Rightarrow> GMPage \<Rightarrow> GMPage \<times> Store" where
  "newRound s gm =
     (if roomCode gm = [] then (alert AlertCreateRoomFirst gm, s)
      else if (case current gm of None \<Rightarrow> False | Some c \<Rightarrow> status c \<noteq> Scored)
      then (alert AlertRoundInProgress gm, s)
      else (case nextIndexNo s gm of
              Inl e \<Rightarrow> (gm, s)
            | Inr idx \<Rightarrow>
               (case insert_round s (roomCode gm) Ready idx (Some False) of
                  (Inl e, s1) \<Rightarrow> (alert (AlertRoundCreateError (err_message e)) gm, s1)
                | (Inr data, s1) \<Rightarrow>
                   let gm1 = GMPage_effects gm (gm\<lparr>current := Some data\<rparr>);
                       gm2 = GMPage_refreshRounds s1 gm1
                   in (gm2, s1))))"

text \<open>\<open>applyScores\<close> (lines 330 to 347).\<close>

definition applyScores :: "Store \<Rightarrow> GMPage \<Rightarrow> GMPage \<times> Store" where
  "applyScores s gm =
     (case current gm of
        None \<Rightarrow> (gm, s)
      | Some c \<Rightarrow>
         if correct_choice c = None then (gm, s)
         else if status c = Scored then (gm, s)
         else if isScoring gm then (gm, s)
         else
           let gm1 = gm\<lparr>isScoring := True\<rparr>;
               (err, s1) = apply_scores_for_round s (id_round c) (w1 gm1) (w2 gm1) (wOther gm1);
               gm2 = gm1\<lparr>isScoring := False\<rparr>
           in (case err of
                 Some e \<Rightarrow> (alert (AlertScoreError (err_message e)) gm2, s1)
               | None \<Rightarrow>
                  let gm3 = refreshPlayers s1 gm2;
                      gm4 = GMPage_refreshRounds s1 gm3
                  in (gm4, s1)))"

text \<open>\<open>startReveal\<close> (lines 350 to 358).\<close>

definition startReveal :: "Store \<Rightarrow> GMPage \<Rightarrow> GMPage \<times> Store" where
  "startReveal s gm =
     (case current gm of
        None \<Rightarrow> (alert AlertChooseCorrectFirst gm, s)
      | Some c \<Rightarrow>
         if correct_choice c = None then (alert AlertChooseCorrectFirst gm, s)
         else
           (case update_reveal_started s (id_round c) of
              (Some e, s1) \<Rightarrow> (alert (AlertRevealError (err_message e)) gm, s1)
            | (None, s1) \<Rightarrow> (startRevealLocal gm, s1)))"

text \<open>
  The button that starts the reveal is disabled (lines 580 to 584) when no correct
  choice is set, when \<open>ranks\<close> is empty or when the round's flag is already set.
\<close>

definition startReveal_disabled :: "GMPage \<Rightarrow> bool" where
  "startReveal_disabled gm =
     (case current gm of
        None \<Rightarrow> True
      | Some c \<Rightarrow> correct_choice c = None \<or> ranks gm = [] \<or> reveal_started c = Some True)"

text \<open>
  \<open>startReveal\<close> in its two halves. It awaits the write between its guard and the
  call of \<open>startRevealLocal\<close>, and sets no state before the await, so that the button
  stays enabled and a second click starts a second invocation in the same render.
  Each reply then runs \<open>startRevealLocal\<close> of the render of its click: the guard
  reads \<open>correctOnlyRanks\<close> and \<open>revealActive\<close> of that render (\<open>render\<close>), the
  state setters and the ref act on the page as it is (\<open>gm\<close>).
\<close>

definition startRevealLocal_of :: "GMPage \<Rightarrow> GMPage \<Rightarrow> GMPage" where
  "startRevealLocal_of render gm =
     (if correctOnlyRanks render = [] \<or> revealActive render then gm
      else
        let (h, gm1) = setInterval (length (correctOnlyRanks render))
                         (gm\<lparr>revealActive := True, revealShown := 1\<rparr>)
        in gm1\<lparr>revealTimer := Some h\<rparr>)"

definition startReveal_request :: "GMPage \<Rightarrow> string option" where
  "startReveal_request render =
     (case current render of
        None \<Rightarrow> None
      | Some c \<Rightarrow> if correct_choice c = None then None else Some (id_round c))"

definition startReveal_reply :: "GMPage \<Rightarrow> StoreError option \<Rightarrow> GMPage \<Rightarrow> GMPage" where
  "startReveal_reply render err gm =
     (case err of
        Some e \<Rightarrow> alert (AlertRevealError (err_message e)) gm
      | None \<Rightarrow> startRevealLocal_of render gm)"

section \<open>The participant's page\<close>

definition PlayerPage_init :: PlayerPage where
  "PlayerPage_init =
     \<lparr>roomCode = [], players = [], rounds = [], current = None, ranks = [],
      revealActive = False, revealShown = 0, revealTimer = None, intervals = [],
      last_handle = 0, alerts = [],
      me = None, myAnswerChoice = None, prevRoundId = None, cleanup_pending = False,
      lookups = []\<rparr>"

text \<open>
  The effect with the dependencies \<open>current?.id\<close> and \<open>me?.id\<close> (lines 743 to 759).
  \<open>current?.id || null\<close> is \<open>null\<close> also for an empty id. For a round id other than
  the one in the ref, the effect records the id, clears the pinned choice and, when a
  participant is set, sends the look-up of the participant's own answer for that
  round. It does not wait for the reply.
\<close>

definition PlayerPage_round_effect :: "PlayerPage \<Rightarrow> PlayerPage" where
  "PlayerPage_round_effect st =
     (let cid = (case current st of
                   None \<Rightarrow> None
                 | Some c \<Rightarrow> if id_round c = [] then None else Some (id_round c))
      in (case cid of
            None \<Rightarrow> st
          | Some i \<Rightarrow>
             if prevRoundId st \<noteq> Some i
             then
               let st1 = st\<lparr>prevRoundId := Some i, myAnswerChoice := None\<rparr>
               in (case me st1 of
                     None \<Rightarrow> st1
                   | Some m \<Rightarrow> st1\<lparr>lookups := lookups st1 @ [(i, id_player m)]\<rparr>)
             else st))"

text \<open>
  What the look-up does with its reply (line 756): a row's choice becomes the pinned
  choice, and without a row, or on an error, nothing is set. The reply is applied to
  the page as it is when it arrives; the source does not test whether the round the
  look-up was sent for is still the current one.
\<close>

definition PlayerPage_lookup_reply :: "Choice option \<Rightarrow> PlayerPage \<Rightarrow> PlayerPage" where
  "PlayerPage_lookup_reply data st =
     (case data of
        None \<Rightarrow> st
      | Some ch \<Rightarrow> st\<lparr>myAnswerChoice := Some ch\<rparr>)"

text \<open>
  The \<open>n\<close>-th of the look-ups under way is answered, by the store \<open>s\<close> as it is at
  that moment.
\<close>

definition PlayerPage_lookup_done :: "Store \<Rightarrow> nat \<Rightarrow> PlayerPage \<Rightarrow> PlayerPage" where
  "PlayerPage_lookup_done s n st =
     (if n < length (lookups st)
      then
        (case lookups st ! n of
           (rid, pid) \<Rightarrow>
             PlayerPage_lookup_reply (select_answer_choice s rid pid)
               (st\<lparr>lookups := take n (lookups st) @ drop (Suc n) (lookups st)\<rparr>))
      else st)"

text \<open>
  The body of the effect with the dependency \<open>current?.reveal_started\<close>
  (lines 767 to 797). The first branch returns no cleanup function, the other paths
  return one.
\<close>

definition PlayerPage_reveal_body :: "PlayerPage \<Rightarrow> PlayerPage" where
  "PlayerPage_reveal_body st =
     (if (case current st of None \<Rightarrow> True | Some c \<Rightarrow> reveal_started c \<noteq> Some True)
      then (reset_reveal st)\<lparr>cleanup_pending := False\<rparr>
      else
        (if \<not> revealActive st then start_stepping st else st)\<lparr>cleanup_pending := True\<rparr>)"

text \<open>
  The cleanup function (lines 793 to 795): it clears the timer and leaves the ref.
\<close>

definition PlayerPage_reveal_cleanup :: "PlayerPage \<Rightarrow> PlayerPage" where
  "PlayerPage_reveal_cleanup st = (if cleanup_pending st then clear_revealTimer st else st)"

text \<open>
  A run of the reveal effect: the cleanup of the run before, then the body. The body
  reads \<open>revealActive\<close> and \<open>correctOnlyRanks\<close> of the render the effect belongs to,
  which the cleanup does not change.
\<close>

definition PlayerPage_reveal_effect :: "PlayerPage \<Rightarrow> PlayerPage" where
  "PlayerPage_reveal_effect st = PlayerPage_reveal_body (PlayerPage_reveal_cleanup st)"

text \<open>
  The effects of a render of \<open>PlayerPage\<close>, in the order of the source: each runs when
  one of its dependencies differs between the render before (\<open>old\<close>) and this one
  (\<open>new\<close>).
\<close>

definition PlayerPage_effects :: "PlayerPage \<Rightarrow> PlayerPage \<Rightarrow> PlayerPage" where
  "PlayerPage_effects old new =
     (let st1 = (if map_option id_round (current new) \<noteq> map_option id_round (current old)
                    \<or> map_option id_player (me new) \<noteq> map_option id_player (me old)
                 then PlayerPage_round_effect new else new)
      in if map_option reveal_started (current new) \<noteq> map_option reveal_started (current old)
         then PlayerPage_reveal_effect st1
         else st1)"

text \<open>
  A call of \<open>refreshRounds\<close> on this page: the state updates, the effects of the
  render that follows, then the ranks. A look-up that the effects have sent is still
  under way afterwards.
\<close>

definition PlayerPage_refreshRounds :: "Store \<Rightarrow> PlayerPage \<Rightarrow> PlayerPage" where
  "PlayerPage_refreshRounds s st =
     (case refreshRounds s st of
        (st1, req) \<Rightarrow> pending_refreshRanks s req (PlayerPage_effects st st1))"

text \<open>
  \<open>answer\<close> (lines 822 to 843) in its two halves: what is sent, if anything, and what
  the handler does with the store's reply. Both error branches of the source return
  without a further action.
\<close>

definition answer_request :: "Choice \<Rightarrow> PlayerPage \<Rightarrow> Answer option" where
  "answer_request ch st =
     (case me st of
        None \<Rightarrow> None
      | Some m \<Rightarrow>
         (case current st of
            None \<Rightarrow> None
          | Some c \<Rightarrow>
             if status c \<noteq> Open then None
             else if myAnswerChoice st \<noteq> None then None
             else Some \<lparr>room_code_answer = room_code_player m, round_id_answer = id_round c,
                        player_id_answer = id_player m, choice_answer = ch\<rparr>))"

definition answer_reply :: "Choice \<Rightarrow> StoreError option \<Rightarrow> PlayerPage \<Rightarrow> PlayerPage" where
  "answer_reply ch err st =
     (case err of
        Some e \<Rightarrow> (if err_code e = ''23505'' then st else st)
      | None \<Rightarrow> st\<lparr>myAnswerChoice := Some ch\<rparr>)"

definition answer :: "Store \<Rightarrow> Choice \<Rightarrow> PlayerPage \<Rightarrow> PlayerPage \<times> Store" where
  "answer s ch st =
     (case answer_request ch st of
        None \<Rightarrow> (st, s)
      | Some payload \<Rightarrow>
         (case insert_answer s payload of
            (err, s1) \<Rightarrow> (answer_reply ch err st, s1)))"

text \<open>
  \<open>goTop\<close> of \<open>PlayerPage\<close> (lines 846 to 858), as far as it touches the client: the
  participant and the reveal cells are reset, then \<open>goTopLocalOnly\<close>. The deletion of
  the participant's row, which the handler awaits first, is a call of the store and
  changes no cell of the page.
\<close>

definition PlayerPage_goTop :: "PlayerPage \<Rightarrow> PlayerPage" where
  "PlayerPage_goTop st =
     PlayerPage_effects st
       (goTopLocalOnly (st\<lparr>me := None, revealActive := False, revealShown := 0\<rparr>))"

section \<open>Notions the properties are stated with\<close>

text \<open>
  \<open>current?.reveal_started\<close> as a condition (lines 583, 595, 769 and 966): the current
  round exists and its flag is \<open>true\<close>.
\<close>

definition current_reveal_started :: "'a RoomCore_scheme \<Rightarrow> bool" where
  "current_reveal_started st =
     (case current st of None \<Rightarrow> False | Some c \<Rightarrow> reveal_started c = Some True)"

section \<open>Example states\<close>

text \<open>
  Room 4821 of the specification's scenarios, with a round whose correct choice is A,
  three correct answers and one wrong one, on both pages in the middle of a reveal.
\<close>

definition ex_round :: Round where
  "ex_round = \<lparr>id_round = ''r1'', room_code_round = ''4821'', index_no = 1, status = Closed,
                correct_choice = Some A, reveal_started = Some True\<rparr>"

definition ex_ranks :: "RankRow list" where
  "ex_ranks =
     [\<lparr>round_id = ''r1'', player_id = ''ken'', choice = A, rank = 1\<rparr>,
      \<lparr>round_id = ''r1'', player_id = ''aya'', choice = B, rank = 2\<rparr>,
      \<lparr>round_id = ''r1'', player_id = ''mio'', choice = A, rank = 3\<rparr>,
      \<lparr>round_id = ''r1'', player_id = ''rin'', choice = A, rank = 4\<rparr>]"

definition ex_gm_revealing :: GMPage where
  "ex_gm_revealing =
     GMPage_init\<lparr>roomCode := ''4821'', rounds := [ex_round], current := Some ex_round,
                 ranks := ex_ranks, revealActive := True, revealShown := 2,
                 revealTimer := Some 1, intervals := [(1, 3)], last_handle := 1\<rparr>"

definition ex_aya :: Player where
  "ex_aya = \<lparr>id_player = ''aya'', room_code_player = ''4821'', display_name = ''Aya'',
              total_score = 0\<rparr>"

definition ex_player_revealing :: PlayerPage where
  "ex_player_revealing =
     PlayerPage_init\<lparr>roomCode := ''4821'', rounds := [ex_round], current := Some ex_round,
                     ranks := ex_ranks, revealActive := True, revealShown := 1,
                     revealTimer := Some 1, intervals := [(1, 3)], last_handle := 1,
                     me := Some ex_aya, prevRoundId := Some ''r1'', cleanup_pending := True\<rparr>"

text \<open>
  The rounds of a room as the store holds them, before the query orders them.
\<close>

definition room_rounds :: "Store \<Rightarrow> string \<Rightarrow> Round list" where
  "room_rounds s rc = filter (\<lambda>r. room_code_round r = rc) (rounds_tbl s)"


text \<open>
  A room with three rounds, the first two scored and the third open, and a game
  master who looks at the first round.
\<close>

definition hist_r1 :: Round where
  "hist_r1 = \<lparr>id_round = ''r1'', room_code_round = ''4821'', index_no = 1, status = Scored,
              correct_choice = Some A, reveal_started = Some True\<rparr>"

definition hist_r2 :: Round where
  "hist_r2 = \<lparr>id_round = ''r2'', room_code_round = ''4821'', index_no = 2, status = Scored,
              correct_choice = Some B, reveal_started = Some True\<rparr>"

definition hist_r3 :: Round where
  "hist_r3 = \<lparr>id_round = ''r3'', room_code_round = ''4821'', index_no = 3, status = Open,
              correct_choice = None, reveal_started = Some False\<rparr>"



text \<open>
  The same room with round 1 scored and round 2 open: the game master's page after a
  refresh, and after the button of the round history was used to look at round 1, when
  the ranks of round 1 have arrived and the refresh that the change of round starts
  has not been answered yet.
\<close>

definition open_r2 :: Round where
  "open_r2 = \<lparr>id_round = ''r2'', room_code_round = ''4821'', index_no = 2, status = Open,
              correct_choice = None, reveal_started = Some False\<rparr>"

definition ex_store_unfinished :: Store where
  "ex_store_unfinished =
     \<lparr>down = False, players_tbl = [], rounds_tbl = [hist_r1, open_r2],
      answers_tbl = [], rank_view = [], next_id = 3, rpc_log = []\<rparr>"

definition ex_gm_latest :: GMPage where
  "ex_gm_latest = GMPage_refreshRounds ex_store_unfinished (GMPage_init\<lparr>roomCode := ''4821''\<rparr>)"

definition ex_gm_reviewing :: GMPage where
  "ex_gm_reviewing =
     refreshRanks ex_store_unfinished (id_round hist_r1) (GMPage_viewRound_click hist_r1 ex_gm_latest)"

text \<open>
  A closed round with the correct choice A set and the reveal not started, for which
  the only answer is a wrong one (choice B).
\<close>

definition closed_r1 :: Round where
  "closed_r1 = \<lparr>id_round = ''r1'', room_code_round = ''4821'', index_no = 1, status = Closed,
                correct_choice = Some A, reveal_started = Some False\<rparr>"

definition ex_store_wrong_only :: Store where
  "ex_store_wrong_only =
     \<lparr>down = False, players_tbl = [ex_aya], rounds_tbl = [closed_r1],
      answers_tbl = [], rank_view = [ex_ranks ! 1], next_id = 2, rpc_log = []\<rparr>"

definition ex_gm_wrong_only :: GMPage where
  "ex_gm_wrong_only =
     GMPage_init\<lparr>roomCode := ''4821'', rounds := [closed_r1], current := Some closed_r1,
                 ranks := [ex_ranks ! 1]\<rparr>"

text \<open>
  The store after the reveal of that round was started, and a game master's page and
  a participant's page that still hold the round as it was before.
\<close>

definition ex_store_revealed :: Store where
  "ex_store_revealed =
     \<lparr>down = False, players_tbl = [ex_aya], rounds_tbl = [ex_round],
      answers_tbl = [], rank_view = ex_ranks, next_id = 2, rpc_log = []\<rparr>"

definition ex_gm_observing :: GMPage where
  "ex_gm_observing =
     GMPage_init\<lparr>roomCode := ''4821'', rounds := [closed_r1], current := Some closed_r1,
                 ranks := ex_ranks\<rparr>"

definition ex_player_observing :: PlayerPage where
  "ex_player_observing =
     PlayerPage_init\<lparr>roomCode := ''4821'', rounds := [closed_r1], current := Some closed_r1,
                     ranks := ex_ranks, me := Some ex_aya, prevRoundId := Some ''r1''\<rparr>"

text \<open>
  A reveal run has just begun in the state \<open>s0\<close>: the reveal is active, the count is 1,
  and the one running timer is the timer of the ref, with handle \<open>h\<close> and captured
  list length \<open>k\<close>.
\<close>

definition run_begun :: "nat \<Rightarrow> nat \<Rightarrow> 'a Client_scheme \<Rightarrow> bool" where
  "run_begun h k s0 =
     (revealActive s0 \<and> revealShown s0 = 1 \<and> revealTimer s0 = Some h \<and> h \<noteq> 0 \<and>
      intervals s0 = [(h, k)])"

text \<open>The round of the example with one correct answer and one wrong answer.\<close>

definition ex_gm_one_correct :: GMPage where
  "ex_gm_one_correct =
     GMPage_init\<lparr>roomCode := ''4821'', rounds := [ex_round], current := Some ex_round,
                 ranks := [ex_ranks ! 0, ex_ranks ! 1]\<rparr>"

text \<open>
  Two states agree on the reveal cells and on the browser's timers.
\<close>

definition same_reveal :: "'a Client_scheme \<Rightarrow> 'b Client_scheme \<Rightarrow> bool" where
  "same_reveal st st' =
     (revealActive st' = revealActive st \<and> revealShown st' = revealShown st \<and>
      revealTimer st' = revealTimer st \<and> intervals st' = intervals st \<and>
      last_handle st' = last_handle st)"

text \<open>
  The states the game master's page can reach, as far as the reveal is concerned.
  The reveal cells and the timers are written by \<open>startRevealLocal\<close>, by the timer's
  callback and by the effect on \<open>current?.id\<close>; every other handler and state
  setter changes other cells only and is followed by the page's effects
  (rule \<open>update\<close>).
\<close>

inductive GMPage_reach :: "GMPage \<Rightarrow> bool" where
  init: "GMPage_reach GMPage_init"
| update: "GMPage_reach gm \<Longrightarrow> same_reveal gm gm' \<Longrightarrow> GMPage_reach (GMPage_effects gm gm')"
| start: "GMPage_reach gm \<Longrightarrow> GMPage_reach (startRevealLocal gm)"
| tick: "GMPage_reach gm \<Longrightarrow> GMPage_reach (interval_tick h gm)"

text \<open>
  The same for a participant's page. There the reveal cells are written by the
  effects, by the timer's callback and by \<open>goTop\<close>.
\<close>

inductive PlayerPage_reach :: "PlayerPage \<Rightarrow> bool" where
  init: "PlayerPage_reach PlayerPage_init"
| update: "PlayerPage_reach st \<Longrightarrow> same_reveal st st' \<Longrightarrow>
           cleanup_pending st' = cleanup_pending st \<Longrightarrow>
           PlayerPage_reach (PlayerPage_effects st st')"
| tick: "PlayerPage_reach st \<Longrightarrow> PlayerPage_reach (interval_tick h st)"
| goTop: "PlayerPage_reach st \<Longrightarrow> PlayerPage_reach (PlayerPage_goTop st)"

text \<open>
  At most one timer is running, and it is the one whose handle the ref holds. On a
  participant's page a running timer also has its cleanup function pending and
  belongs to a round whose reveal has started.
\<close>

definition one_timer :: "'a Client_scheme \<Rightarrow> bool" where
  "one_timer st =
     (intervals st = [] \<or>
      (\<exists>h k. intervals st = [(h, k)] \<and> revealTimer st = Some h \<and> h \<noteq> 0 \<and> revealActive st))"

definition player_timer :: "PlayerPage \<Rightarrow> bool" where
  "player_timer st =
     (one_timer st \<and> (intervals st \<noteq> [] \<longrightarrow> cleanup_pending st \<and> current_reveal_started st))"

text \<open>
  The table \<open>answers\<close> holds a row for the (round, participant) pair.
\<close>

definition has_answer :: "Store \<Rightarrow> string \<Rightarrow> string \<Rightarrow> bool" where
  "has_answer s rid pid =
     (\<exists>b \<in> set (answers_tbl s). round_id_answer b = rid \<and> player_id_answer b = pid)"

text \<open>
  Aya's page during the open round 2 before she has answered, the row her answer
  makes, the store after her answer A, and her page right after a reload (identity
  restored from the local storage, nothing fetched yet).
\<close>

definition ex_player_open :: PlayerPage where
  "ex_player_open =
     PlayerPage_init\<lparr>roomCode := ''4821'', rounds := [hist_r1, open_r2], current := Some open_r2,
                     me := Some ex_aya, prevRoundId := Some ''r2''\<rparr>"

definition ex_answer :: "Choice \<Rightarrow> Answer" where
  "ex_answer ch = \<lparr>room_code_answer = ''4821'', round_id_answer = ''r2'',
                   player_id_answer = ''aya'', choice_answer = ch\<rparr>"

definition ex_store_answered :: Store where
  "ex_store_answered = ex_store_unfinished\<lparr>answers_tbl := [ex_answer A]\<rparr>"

definition ex_player_reloaded :: PlayerPage where
  "ex_player_reloaded = PlayerPage_init\<lparr>roomCode := ''4821'', me := Some ex_aya\<rparr>"

text \<open>
  Aya answered A in round 1, which is scored and the only round of the room when she
  reloads her page (\<open>ex_store_first\<close>, \<open>ex_player_first\<close>). Round 2 is then opened
  (\<open>ex_store_second\<close>) and her page refreshes (\<open>ex_player_second\<close>) while the look-up
  of her answer to round 1 is still under way. \<open>ex_player_late\<close> is her page after the
  replies to both look-ups, the older one first.
\<close>

definition ex_answer_first :: Answer where
  "ex_answer_first = \<lparr>room_code_answer = ''4821'', round_id_answer = ''r1'',
                      player_id_answer = ''aya'', choice_answer = A\<rparr>"

definition ex_store_first :: Store where
  "ex_store_first =
     \<lparr>down = False, players_tbl = [ex_aya], rounds_tbl = [hist_r1],
      answers_tbl = [ex_answer_first],
      rank_view = [\<lparr>round_id = ''r1'', player_id = ''aya'', choice = A, rank = 1\<rparr>],
      next_id = 2, rpc_log = []\<rparr>"

definition ex_store_second :: Store where
  "ex_store_second = ex_store_first\<lparr>rounds_tbl := [hist_r1, open_r2], next_id := 3\<rparr>"

definition ex_player_first :: PlayerPage where
  "ex_player_first = PlayerPage_refreshRounds ex_store_first ex_player_reloaded"

definition ex_player_second :: PlayerPage where
  "ex_player_second = PlayerPage_refreshRounds ex_store_second ex_player_first"

definition ex_player_late :: PlayerPage where
  "ex_player_late =
     PlayerPage_lookup_done ex_store_second 0
       (PlayerPage_lookup_done ex_store_second 0 ex_player_second)"

text \<open>
  What the scoring operation does to a row of \<open>rounds\<close>: the rows of the scored round
  get the status \<open>scored\<close>.
\<close>

definition mark_scored :: "string \<Rightarrow> Round \<Rightarrow> Round" where
  "mark_scored rid x = (if id_round x = rid then x\<lparr>status := Scored\<rparr> else x)"

text \<open>
  Scenario 1 of the specification: Ken answered A (rank 1), Aya answered B, the round
  is closed with the correct choice A, and the weights are 100, 70 and 20.
\<close>

definition ex_ken :: Player where
  "ex_ken = \<lparr>id_player = ''ken'', room_code_player = ''4821'', display_name = ''Ken'',
              total_score = 0\<rparr>"

definition ex_store_scoring :: Store where
  "ex_store_scoring =
     \<lparr>down = False, players_tbl = [ex_ken, ex_aya], rounds_tbl = [closed_r1],
      answers_tbl = [], rank_view = [ex_ranks ! 0, ex_ranks ! 1], next_id = 2, rpc_log = []\<rparr>"

definition ex_gm_scoring :: GMPage where
  "ex_gm_scoring =
     GMPage_init\<lparr>roomCode := ''4821'', players := [ex_ken, ex_aya], rounds := [closed_r1],
                 current := Some closed_r1, ranks := [ex_ranks ! 0, ex_ranks ! 1]\<rparr>"

section \<open>Properties\<close>

subsection \<open>Reveal rendering\<close>

lemma length_rank_items: "length (rank_items arr cnt) = length arr"
  by (simp add: rank_items_def)

lemma rank_items_nth:
  "idx < length arr \<Longrightarrow>
   rank_items arr cnt ! idx = (arr ! idx, int (length arr) - 1 - int idx < cnt)"
  by (simp add: rank_items_def nth_enumerate_eq)

lemma GMPage_rank_list_open:
  "roomCode gm \<noteq> [] \<Longrightarrow> current_reveal_started gm \<Longrightarrow>
   GMPage_rank_list gm = rank_items (correctOnlyRanks gm) (showCountFromBottom gm)"
  by (auto simp: GMPage_rank_list_def current_reveal_started_def correctOnlyRanks_def
        rank_items_def split: option.splits)

lemma GMPage_rank_list_closed: "\<not> current_reveal_started gm \<Longrightarrow> GMPage_rank_list gm = []"
  by (auto simp: GMPage_rank_list_def current_reveal_started_def split: option.splits)

lemma PlayerPage_rank_list_open:
  "me st \<noteq> None \<Longrightarrow> current_reveal_started st \<Longrightarrow>
   PlayerPage_rank_list st = rank_items (correctOnlyRanks st) (showCountFromBottom st)"
  by (auto simp: PlayerPage_rank_list_def current_reveal_started_def correctOnlyRanks_def
        rank_items_def showCountFromBottom_def split: option.splits)

lemma PlayerPage_rank_list_closed:
  "\<not> current_reveal_started st \<Longrightarrow> PlayerPage_rank_list st = []"
  by (auto simp: PlayerPage_rank_list_def current_reveal_started_def split: option.splits)

lemma GMPage_visible_open:
  "visible_at (GMPage_rank_list gm) idx \<Longrightarrow> roomCode gm \<noteq> [] \<and> current_reveal_started gm"
  by (auto simp: GMPage_rank_list_def visible_at_def current_reveal_started_def
           split: option.splits if_splits)

lemma PlayerPage_visible_open:
  "visible_at (PlayerPage_rank_list st) idx \<Longrightarrow> me st \<noteq> None \<and> current_reveal_started st"
  by (auto simp: PlayerPage_rank_list_def visible_at_def current_reveal_started_def
           split: option.splits if_splits)

lemma visible_rank_items:
  "visible_at (rank_items arr cnt) idx \<longleftrightarrow>
   idx < length arr \<and> int (length arr) - 1 - int idx < cnt"
  by (auto simp: visible_at_def length_rank_items rank_items_nth)

text \<open>
  Claim C4. Let K be the number of rows with the correct choice. On both pages the
  entry at position \<open>idx\<close> (from the top, \<open>idx < K\<close>) is visible exactly when the current
  round's \<open>reveal_started\<close> is true, the local reveal is active and the reveal count
  exceeds the distance from the bottom \<open>K - 1 - idx\<close>. Hence a visible entry makes
  every entry below it visible (the reveal runs bottom-up), and while \<open>reveal_started\<close>
  is not true no entry is visible, whatever the local reveal state is.
\<close>

theorem reveal_visibility:
  "(roomCode gm \<noteq> [] \<and> idx < length (correctOnlyRanks gm) \<longrightarrow>
      visible_at (GMPage_rank_list gm) idx =
        (current_reveal_started gm \<and> revealActive gm \<and>
         revealShown gm > int (length (correctOnlyRanks gm)) - 1 - int idx))
   \<and> (me st \<noteq> None \<and> idx < length (correctOnlyRanks st) \<longrightarrow>
      visible_at (PlayerPage_rank_list st) idx =
        (current_reveal_started st \<and> revealActive st \<and>
         revealShown st > int (length (correctOnlyRanks st)) - 1 - int idx))
   \<and> (visible_at (GMPage_rank_list gm) idx \<and> idx \<le> j \<and> j < length (correctOnlyRanks gm) \<longrightarrow>
        visible_at (GMPage_rank_list gm) j)
   \<and> (visible_at (PlayerPage_rank_list st) idx \<and> idx \<le> j \<and> j < length (correctOnlyRanks st) \<longrightarrow>
        visible_at (PlayerPage_rank_list st) j)
   \<and> (\<not> current_reveal_started gm \<longrightarrow> \<not> visible_at (GMPage_rank_list gm) idx)
   \<and> (\<not> current_reveal_started st \<longrightarrow> \<not> visible_at (PlayerPage_rank_list st) idx)"
proof (intro conjI impI)
  show "\<not> visible_at (GMPage_rank_list gm) idx" if "\<not> current_reveal_started gm"
    using that by (simp add: GMPage_rank_list_closed visible_at_def)
  show "\<not> visible_at (PlayerPage_rank_list st) idx" if "\<not> current_reveal_started st"
    using that by (simp add: PlayerPage_rank_list_closed visible_at_def)
  show "visible_at (GMPage_rank_list gm) idx =
        (current_reveal_started gm \<and> revealActive gm \<and>
         revealShown gm > int (length (correctOnlyRanks gm)) - 1 - int idx)"
    if "roomCode gm \<noteq> [] \<and> idx < length (correctOnlyRanks gm)"
  proof (cases "current_reveal_started gm")
    case True
    with that show ?thesis
      by (auto simp: GMPage_rank_list_open visible_rank_items showCountFromBottom_def)
  next
    case False
    then show ?thesis by (simp add: GMPage_rank_list_closed visible_at_def)
  qed
  show "visible_at (PlayerPage_rank_list st) idx =
        (current_reveal_started st \<and> revealActive st \<and>
         revealShown st > int (length (correctOnlyRanks st)) - 1 - int idx)"
    if "me st \<noteq> None \<and> idx < length (correctOnlyRanks st)"
  proof (cases "current_reveal_started st")
    case True
    with that show ?thesis
      by (auto simp: PlayerPage_rank_list_open visible_rank_items showCountFromBottom_def)
  next
    case False
    then show ?thesis by (simp add: PlayerPage_rank_list_closed visible_at_def)
  qed
  show "visible_at (GMPage_rank_list gm) j"
    if "visible_at (GMPage_rank_list gm) idx \<and> idx \<le> j \<and> j < length (correctOnlyRanks gm)"
  proof (cases "roomCode gm \<noteq> [] \<and> current_reveal_started gm")
    case True
    with that show ?thesis
      by (auto simp: GMPage_rank_list_open visible_rank_items)
  next
    case False
    with that GMPage_visible_open [of gm idx] show ?thesis by blast
  qed
  show "visible_at (PlayerPage_rank_list st) j"
    if "visible_at (PlayerPage_rank_list st) idx \<and> idx \<le> j \<and> j < length (correctOnlyRanks st)"
  proof (cases "me st \<noteq> None \<and> current_reveal_started st")
    case True
    with that show ?thesis
      by (auto simp: PlayerPage_rank_list_open visible_rank_items)
  next
    case False
    with that PlayerPage_visible_open [of st idx] show ?thesis by blast
  qed
qed

lemma ex_gm_revealing_facts:
  "roomCode ex_gm_revealing \<noteq> []" "length (correctOnlyRanks ex_gm_revealing) = 3"
  "current_reveal_started ex_gm_revealing" "revealActive ex_gm_revealing"
  "revealShown ex_gm_revealing = 2"
  by (simp_all add: correctOnlyRanks_def current_reveal_started_def ex_gm_revealing_def
        ex_round_def ex_ranks_def GMPage_init_def)

lemma ex_player_revealing_facts:
  "me ex_player_revealing \<noteq> None" "length (correctOnlyRanks ex_player_revealing) = 3"
  "current_reveal_started ex_player_revealing" "revealActive ex_player_revealing"
  "revealShown ex_player_revealing = 1"
  by (simp_all add: correctOnlyRanks_def current_reveal_started_def ex_player_revealing_def
        ex_round_def ex_ranks_def PlayerPage_init_def)

theorem reveal_visibility_witness:
  "\<not> visible_at (GMPage_rank_list ex_gm_revealing) 0
   \<and> visible_at (GMPage_rank_list ex_gm_revealing) 1
   \<and> \<not> visible_at (PlayerPage_rank_list ex_player_revealing) 1
   \<and> visible_at (PlayerPage_rank_list ex_player_revealing) 2
   \<and> \<not> visible_at (PlayerPage_rank_list (ex_player_revealing\<lparr>current := None\<rparr>)) 2"
proof -
  have closed: "\<not> current_reveal_started (ex_player_revealing\<lparr>current := None\<rparr>)"
    by (simp add: current_reveal_started_def)
  have a: "\<not> visible_at (GMPage_rank_list ex_gm_revealing) 0"
    using reveal_visibility [of ex_gm_revealing 0 ex_player_revealing 0]
    by (simp add: ex_gm_revealing_facts)
  have b: "visible_at (GMPage_rank_list ex_gm_revealing) 1"
    using reveal_visibility [of ex_gm_revealing 1 ex_player_revealing 1]
    by (simp add: ex_gm_revealing_facts)
  have c: "\<not> visible_at (PlayerPage_rank_list ex_player_revealing) 1"
    using reveal_visibility [of ex_gm_revealing 1 ex_player_revealing 1]
    by (simp add: ex_player_revealing_facts)
  have d: "visible_at (PlayerPage_rank_list ex_player_revealing) 2"
    using reveal_visibility [of ex_gm_revealing 2 ex_player_revealing 2]
    by (simp add: ex_player_revealing_facts)
  have e: "\<not> visible_at (PlayerPage_rank_list (ex_player_revealing\<lparr>current := None\<rparr>)) 2"
    using reveal_visibility [of ex_gm_revealing 2 "ex_player_revealing\<lparr>current := None\<rparr>" 2] closed
    by blast
  from a b c d e show ?thesis by blast
qed

subsection \<open>Selection of the current round\<close>


lemma refreshRounds_current:
  "roomCode st \<noteq> [] \<Longrightarrow> \<not> down s \<Longrightarrow>
   current (fst (refreshRounds s st)) =
     nextCurrent (sort_key index_no (room_rounds s (roomCode st))) (current st)"
  by (simp add: refreshRounds_def select_rounds_def room_rounds_def)

lemma find_same_id:
  "find (\<lambda>r. id_round r = i) xs = Some same \<Longrightarrow> same \<in> set xs \<and> id_round same = i"
  by (induction xs) (auto split: if_splits)


lemma hist_fields:
  "id_round hist_r1 = ''r1''" "id_round hist_r2 = ''r2''" "id_round hist_r3 = ''r3''"
  "index_no hist_r1 = 1" "index_no hist_r2 = 2" "index_no hist_r3 = 3"
  "status hist_r1 = Scored" "status hist_r2 = Scored" "status hist_r3 = Open"
  "room_code_round hist_r1 = ''4821''" "room_code_round hist_r2 = ''4821''"
  "room_code_round hist_r3 = ''4821''"
  by (simp_all add: hist_r1_def hist_r2_def hist_r3_def)






subsection \<open>Creating a round\<close>



lemma open_r2_fields:
  "id_round open_r2 = ''r2''" "index_no open_r2 = 2" "status open_r2 = Open"
  "room_code_round open_r2 = ''4821''"
  by (simp_all add: open_r2_def)

lemma ex_store_unfinished_fields:
  "\<not> down ex_store_unfinished" "rounds_tbl ex_store_unfinished = [hist_r1, open_r2]"
  "rank_view ex_store_unfinished = []"
  by (simp_all add: ex_store_unfinished_def)


lemma sort_key_eq_Nil: "sort_key f xs = [] \<longleftrightarrow> xs = []"
  by (metis length_0_conv length_sort)

lemma refreshRounds_up:
  "roomCode st \<noteq> [] \<Longrightarrow> \<not> down s \<Longrightarrow>
   refreshRounds s st =
      (st\<lparr>rounds := sort_key index_no (room_rounds s (roomCode st)),
          current := nextCurrent (sort_key index_no (room_rounds s (roomCode st))) (current st)\<rparr>,
       if room_rounds s (roomCode st) \<noteq> [] \<and>
          id_round (last (sort_key index_no (room_rounds s (roomCode st)))) \<noteq> []
       then Some (id_round (last (sort_key index_no (room_rounds s (roomCode st))))) else None)"
  by (simp add: refreshRounds_def select_rounds_def room_rounds_def sort_key_eq_Nil)

lemma ex_gm_latest_eq:
  "ex_gm_latest
   = GMPage_init\<lparr>roomCode := ''4821'', rounds := [hist_r1, open_r2], current := Some open_r2\<rparr>"
  by (simp add: ex_gm_latest_def GMPage_refreshRounds_def refreshRounds_def select_rounds_def
        nextCurrent_def GMPage_effects_def reset_reveal_def
        pending_refreshRanks_def refreshRanks_def select_rank_def GMPage_init_def
        ex_store_unfinished_def hist_r1_def open_r2_def)

lemma ex_gm_reviewing_eq:
  "ex_gm_reviewing =
     GMPage_init\<lparr>roomCode := ''4821'', rounds := [hist_r1, open_r2], current := Some hist_r1\<rparr>"
  unfolding ex_gm_reviewing_def ex_gm_latest_eq
  by (simp add: GMPage_viewRound_click_def GMPage_effects_def reset_reveal_def refreshRanks_def
        select_rank_def ex_store_unfinished_def GMPage_init_def open_r2_def hist_r1_def)


text \<open>
  The selection of the scored round 1 lasts until the refresh that the change of round
  starts has been answered: that refresh selects the open round 2 again.
\<close>

lemma ex_gm_viewed:
  "useRoomCore_effect ex_gm_latest (GMPage_viewRound_click hist_r1 ex_gm_latest)
   \<and> GMPage_viewRound ex_store_unfinished hist_r1 ex_gm_latest
       = GMPage_refreshRounds ex_store_unfinished (refreshPlayers ex_store_unfinished ex_gm_reviewing)
   \<and> current (GMPage_viewRound ex_store_unfinished hist_r1 ex_gm_latest) = Some open_r2"
proof -
  have click: "GMPage_viewRound_click hist_r1 ex_gm_latest
      = GMPage_init\<lparr>roomCode := ''4821'', rounds := [hist_r1, open_r2], current := Some hist_r1\<rparr>"
    unfolding ex_gm_latest_eq
    by (simp add: GMPage_viewRound_click_def GMPage_effects_def reset_reveal_def GMPage_init_def
          open_r2_def hist_r1_def)
  have eff: "useRoomCore_effect ex_gm_latest (GMPage_viewRound_click hist_r1 ex_gm_latest)"
    unfolding click unfolding ex_gm_latest_eq
    by (simp add: useRoomCore_effect_def hist_fields open_r2_fields)
  have full: "GMPage_viewRound ex_store_unfinished hist_r1 ex_gm_latest
       = GMPage_refreshRounds ex_store_unfinished (refreshPlayers ex_store_unfinished ex_gm_reviewing)"
    using eff by (simp add: GMPage_viewRound_def Let_def ex_gm_reviewing_def)
  have pl: "refreshPlayers ex_store_unfinished ex_gm_reviewing = ex_gm_reviewing"
    unfolding ex_gm_reviewing_eq
    by (simp add: refreshPlayers_def select_players_def ex_store_unfinished_def GMPage_init_def)
  have cur: "current (GMPage_refreshRounds ex_store_unfinished ex_gm_reviewing) = Some open_r2"
    unfolding ex_gm_reviewing_eq
    by (simp add: GMPage_refreshRounds_def refreshRounds_def select_rounds_def nextCurrent_def
          GMPage_effects_def reset_reveal_def pending_refreshRanks_def refreshRanks_def
          select_rank_def GMPage_init_def ex_store_unfinished_def hist_r1_def open_r2_def)
  from eff full cur show ?thesis by (simp add: pl)
qed




subsection \<open>Starting the reveal\<close>

lemma start_stepping_fields:
  "alerts (start_stepping st) = alerts st" "current (start_stepping st) = current st"
  "revealActive (start_stepping st)" "revealShown (start_stepping st) = 1"
  "revealTimer (start_stepping st) = Some (Suc (last_handle st))"
  "intervals (start_stepping st) = intervals st @ [(Suc (last_handle st), length (correctOnlyRanks st))]"
  "last_handle (start_stepping st) = Suc (last_handle st)"
  by (simp_all add: start_stepping_def setInterval_def Let_def correctOnlyRanks_def)

lemma alerts_startRevealLocal: "alerts (startRevealLocal gm) = alerts gm"
  by (simp add: startRevealLocal_def start_stepping_fields)

text \<open>
  Claim C6, as the code has it. \<open>startReveal\<close> is rejected, with the alert that asks
  for a correct choice and without a write, exactly when no round is selected or the
  selected round has no correct choice. Otherwise it writes \<open>reveal_started = true\<close>
  for the round in the shared store (when the store is reachable; if not, an alert
  reports the error and nothing is written), whether or not a ranked correct entry
  exists: the handler does not look at the ranks.
\<close>

theorem startReveal_gate:
  "((current gm = None \<or> (\<exists>c'. current gm = Some c' \<and> correct_choice c' = None)) \<longrightarrow>
      startReveal s gm = (alert AlertChooseCorrectFirst gm, s))
   \<and> (current gm = Some c \<and> correct_choice c \<noteq> None \<and> \<not> down s \<longrightarrow>
        rounds_tbl (snd (startReveal s gm)) =
          map (\<lambda>r. if id_round r = id_round c then r\<lparr>reveal_started := Some True\<rparr> else r)
            (rounds_tbl s)
        \<and> alerts (fst (startReveal s gm)) = alerts gm)
   \<and> (current gm = Some c \<and> correct_choice c \<noteq> None \<and> down s \<longrightarrow>
        startReveal s gm = (alert (AlertRevealError (err_message unavailable)) gm, s))"
proof -
  have a: "startReveal s gm = (alert AlertChooseCorrectFirst gm, s)"
    if "current gm = None \<or> (\<exists>c'. current gm = Some c' \<and> correct_choice c' = None)"
    using that by (auto simp: startReveal_def)
  have b: "rounds_tbl (snd (startReveal s gm)) =
          map (\<lambda>r. if id_round r = id_round c then r\<lparr>reveal_started := Some True\<rparr> else r)
            (rounds_tbl s)
        \<and> alerts (fst (startReveal s gm)) = alerts gm"
    if "current gm = Some c \<and> correct_choice c \<noteq> None \<and> \<not> down s"
    using that by (auto simp: startReveal_def update_reveal_started_def alerts_startRevealLocal)
  have c: "startReveal s gm = (alert (AlertRevealError (err_message unavailable)) gm, s)"
    if "current gm = Some c \<and> correct_choice c \<noteq> None \<and> down s"
    using that by (auto simp: startReveal_def update_reveal_started_def)
  from a b c show ?thesis by blast
qed

lemma closed_r1_fields:
  "id_round closed_r1 = ''r1''" "correct_choice closed_r1 = Some A"
  "reveal_started closed_r1 = Some False" "status closed_r1 = Closed"
  "index_no closed_r1 = 1" "room_code_round closed_r1 = ''4821''"
  by (simp_all add: closed_r1_def)

lemma ex_gm_wrong_only_fields:
  "current ex_gm_wrong_only = Some closed_r1" "ranks ex_gm_wrong_only = [ex_ranks ! 1]"
  "alerts ex_gm_wrong_only = []" "correctOnlyRanks ex_gm_wrong_only = []"
  by (simp_all add: ex_gm_wrong_only_def GMPage_init_def correctOnlyRanks_def closed_r1_fields
        ex_ranks_def)

lemma ex_store_wrong_only_fields:
  "\<not> down ex_store_wrong_only" "rounds_tbl ex_store_wrong_only = [closed_r1]"
  by (simp_all add: ex_store_wrong_only_def)

text \<open>
  Claim C6 as stated fails: a correct choice is set and no row has it, the button is
  enabled because \<open>ranks\<close> is not empty, and \<open>startReveal\<close> writes the flag without
  an alert.
\<close>

theorem startReveal_gate_counterexample:
  "correctOnlyRanks ex_gm_wrong_only = []
   \<and> \<not> startReveal_disabled ex_gm_wrong_only
   \<and> map reveal_started (rounds_tbl ex_store_wrong_only) = [Some False]
   \<and> map reveal_started (rounds_tbl (snd (startReveal ex_store_wrong_only ex_gm_wrong_only))) = [Some True]
   \<and> alerts (fst (startReveal ex_store_wrong_only ex_gm_wrong_only)) = []"
  by (simp add: ex_gm_wrong_only_fields startReveal_disabled_def closed_r1_fields
        ex_store_wrong_only_fields startReveal_def update_reveal_started_def
        alerts_startRevealLocal)

theorem startReveal_gate_witness:
  "startReveal ex_store_wrong_only (ex_gm_wrong_only\<lparr>current := None\<rparr>)
     = (alert AlertChooseCorrectFirst (ex_gm_wrong_only\<lparr>current := None\<rparr>), ex_store_wrong_only)
   \<and> rounds_tbl (snd (startReveal ex_store_wrong_only ex_gm_wrong_only))
       = [closed_r1\<lparr>reveal_started := Some True\<rparr>]
   \<and> startReveal (ex_store_wrong_only\<lparr>down := True\<rparr>) ex_gm_wrong_only
       = (alert (AlertRevealError (err_message unavailable)) ex_gm_wrong_only,
          ex_store_wrong_only\<lparr>down := True\<rparr>)"
proof -
  have a: "startReveal ex_store_wrong_only (ex_gm_wrong_only\<lparr>current := None\<rparr>)
     = (alert AlertChooseCorrectFirst (ex_gm_wrong_only\<lparr>current := None\<rparr>), ex_store_wrong_only)"
    using startReveal_gate [of "ex_gm_wrong_only\<lparr>current := None\<rparr>" ex_store_wrong_only closed_r1]
    by simp
  have b: "rounds_tbl (snd (startReveal ex_store_wrong_only ex_gm_wrong_only))
       = [closed_r1\<lparr>reveal_started := Some True\<rparr>]"
    using startReveal_gate [of ex_gm_wrong_only ex_store_wrong_only closed_r1]
    by (simp add: ex_gm_wrong_only_fields ex_store_wrong_only_fields closed_r1_fields)
  have c: "startReveal (ex_store_wrong_only\<lparr>down := True\<rparr>) ex_gm_wrong_only
       = (alert (AlertRevealError (err_message unavailable)) ex_gm_wrong_only,
          ex_store_wrong_only\<lparr>down := True\<rparr>)"
    using startReveal_gate [of ex_gm_wrong_only "ex_store_wrong_only\<lparr>down := True\<rparr>" closed_r1]
    by (simp add: ex_gm_wrong_only_fields closed_r1_fields)
  from a b c show ?thesis by blast
qed

subsection \<open>How the reveal starts on each page\<close>

lemma refreshRounds_client_fields:
  fixes st :: "'a Client_scheme"
  shows "revealActive (fst (refreshRounds s st)) = revealActive st"
    "revealShown (fst (refreshRounds s st)) = revealShown st"
    "revealTimer (fst (refreshRounds s st)) = revealTimer st"
    "intervals (fst (refreshRounds s st)) = intervals st"
    "last_handle (fst (refreshRounds s st)) = last_handle st"
    "alerts (fst (refreshRounds s st)) = alerts st"
  by (simp_all add: refreshRounds_def split: sum.splits)

lemma pending_refreshRanks_fields:
  fixes st :: "'a Client_scheme"
  shows "revealActive (pending_refreshRanks s req st) = revealActive st"
    "revealShown (pending_refreshRanks s req st) = revealShown st"
    "revealTimer (pending_refreshRanks s req st) = revealTimer st"
    "intervals (pending_refreshRanks s req st) = intervals st"
    "last_handle (pending_refreshRanks s req st) = last_handle st"
    "alerts (pending_refreshRanks s req st) = alerts st"
    "current (pending_refreshRanks s req st) = current st"
  by (simp_all add: pending_refreshRanks_def refreshRanks_def split: sum.splits option.splits)

lemma reset_reveal_fields:
  "\<not> revealActive (reset_reveal st)" "revealShown (reset_reveal st) = 0"
  "last_handle (reset_reveal st) = last_handle st"
  "set (intervals (reset_reveal st)) \<subseteq> set (intervals st)"
  "alerts (reset_reveal st) = alerts st" "current (reset_reveal st) = current st"
  by (auto simp: reset_reveal_def clearInterval_def Let_def split: option.splits)

lemma GMPage_effects_fields:
  "revealActive (GMPage_effects old new) \<longrightarrow> revealActive new"
  "last_handle (GMPage_effects old new) = last_handle new"
  "set (intervals (GMPage_effects old new)) \<subseteq> set (intervals new)"
  "current (GMPage_effects old new) = current new"
  using reset_reveal_fields [of new] by (auto simp: GMPage_effects_def)

lemma GMPage_refreshRounds_fields:
  "revealActive (GMPage_refreshRounds s gm) \<longrightarrow> revealActive gm"
  "last_handle (GMPage_refreshRounds s gm) = last_handle gm"
  "set (intervals (GMPage_refreshRounds s gm)) \<subseteq> set (intervals gm)"
proof -
  obtain gm1 req where r: "refreshRounds s gm = (gm1, req)" by (cases "refreshRounds s gm")
  then have gm1: "gm1 = fst (refreshRounds s gm)" by simp
  show "revealActive (GMPage_refreshRounds s gm) \<longrightarrow> revealActive gm"
    using GMPage_effects_fields(1) [of gm gm1]
    by (simp add: GMPage_refreshRounds_def r pending_refreshRanks_fields)
       (simp add: gm1 refreshRounds_client_fields)
  show "last_handle (GMPage_refreshRounds s gm) = last_handle gm"
    by (simp add: GMPage_refreshRounds_def r pending_refreshRanks_fields GMPage_effects_fields)
       (simp add: gm1 refreshRounds_client_fields)
  show "set (intervals (GMPage_refreshRounds s gm)) \<subseteq> set (intervals gm)"
    using GMPage_effects_fields(3) [of gm gm1]
    by (simp add: GMPage_refreshRounds_def r pending_refreshRanks_fields)
       (simp add: gm1 refreshRounds_client_fields)
qed

lemma PlayerPage_round_effect_fields:
  "current (PlayerPage_round_effect st) = current st"
  "revealActive (PlayerPage_round_effect st) = revealActive st"
  "revealShown (PlayerPage_round_effect st) = revealShown st"
  "revealTimer (PlayerPage_round_effect st) = revealTimer st"
  "intervals (PlayerPage_round_effect st) = intervals st"
  "last_handle (PlayerPage_round_effect st) = last_handle st"
  "cleanup_pending (PlayerPage_round_effect st) = cleanup_pending st"
  "ranks (PlayerPage_round_effect st) = ranks st"
  by (simp_all add: PlayerPage_round_effect_def Let_def split: option.splits)

lemma PlayerPage_reveal_cleanup_fields:
  "current (PlayerPage_reveal_cleanup st) = current st"
  "revealActive (PlayerPage_reveal_cleanup st) = revealActive st"
  "revealShown (PlayerPage_reveal_cleanup st) = revealShown st"
  "revealTimer (PlayerPage_reveal_cleanup st) = revealTimer st"
  "last_handle (PlayerPage_reveal_cleanup st) = last_handle st"
  "ranks (PlayerPage_reveal_cleanup st) = ranks st"
  by (simp_all add: PlayerPage_reveal_cleanup_def clear_revealTimer_def clearInterval_def
        split: option.splits)

lemma PlayerPage_reveal_effect_starts:
  assumes "current_reveal_started st" "\<not> revealActive st"
  shows "revealActive (PlayerPage_reveal_effect st)"
    "revealShown (PlayerPage_reveal_effect st) = 1"
    "last_handle (PlayerPage_reveal_effect st) = Suc (last_handle st)"
    "revealTimer (PlayerPage_reveal_effect st) = Some (Suc (last_handle st))"
  using assms
  by (auto simp: PlayerPage_reveal_effect_def PlayerPage_reveal_body_def
        current_reveal_started_def PlayerPage_reveal_cleanup_fields start_stepping_fields
        split: option.splits)

lemma reveal_dep_changed:
  "\<not> current_reveal_started old \<Longrightarrow> current_reveal_started new \<Longrightarrow>
   map_option reveal_started (current new) \<noteq> map_option reveal_started (current old)"
  by (auto simp: current_reveal_started_def split: option.splits)

text \<open>
  Claim C7, as the code has it. The game master's page starts its local reveal by a
  direct call: after a successful write, the state \<open>startReveal\<close> returns is the one
  \<open>startRevealLocal\<close> gives. Observing the rounds (a refresh after a change
  notification) never activates the reveal on the game master's page and starts no
  timer there. On a participant's page a refresh that shows \<open>reveal_started\<close> turned
  true, with no reveal active, starts the reveal: count 1 and a new timer.
\<close>

theorem reveal_start_paths:
  "(current gm = Some c \<and> correct_choice c \<noteq> None \<and> \<not> down s \<longrightarrow>
      fst (startReveal s gm) = startRevealLocal gm)
   \<and> (revealActive (GMPage_refreshRounds s gm) \<longrightarrow> revealActive gm)
   \<and> last_handle (GMPage_refreshRounds s gm) = last_handle gm
   \<and> (\<not> revealActive st \<and> \<not> current_reveal_started st
        \<and> current_reveal_started (fst (refreshRounds s st)) \<longrightarrow>
        revealActive (PlayerPage_refreshRounds s st)
        \<and> revealShown (PlayerPage_refreshRounds s st) = 1
        \<and> revealTimer (PlayerPage_refreshRounds s st) = Some (Suc (last_handle st))
        \<and> last_handle (PlayerPage_refreshRounds s st) = Suc (last_handle st))"
proof -
  have a: "fst (startReveal s gm) = startRevealLocal gm"
    if "current gm = Some c \<and> correct_choice c \<noteq> None \<and> \<not> down s"
    using that by (auto simp: startReveal_def update_reveal_started_def)
  have b: "revealActive (PlayerPage_refreshRounds s st)
        \<and> revealShown (PlayerPage_refreshRounds s st) = 1
        \<and> revealTimer (PlayerPage_refreshRounds s st) = Some (Suc (last_handle st))
        \<and> last_handle (PlayerPage_refreshRounds s st) = Suc (last_handle st)"
    if h: "\<not> revealActive st \<and> \<not> current_reveal_started st
        \<and> current_reveal_started (fst (refreshRounds s st))"
  proof -
    obtain st1 req where r: "refreshRounds s st = (st1, req)" by (cases "refreshRounds s st")
    then have st1: "st1 = fst (refreshRounds s st)" by simp
    let ?st2 = "if map_option id_round (current st1) \<noteq> map_option id_round (current st)
                    \<or> map_option id_player (me st1) \<noteq> map_option id_player (me st)
                 then PlayerPage_round_effect st1 else st1"
    have act: "\<not> revealActive ?st2" and lh: "last_handle ?st2 = last_handle st"
      using h by (simp_all add: PlayerPage_round_effect_fields st1 refreshRounds_client_fields)
    have started: "current_reveal_started ?st2"
      using h by (simp add: current_reveal_started_def PlayerPage_round_effect_fields st1)
    have dep: "map_option reveal_started (current st1) \<noteq> map_option reveal_started (current st)"
      using h reveal_dep_changed [of st st1] by (simp add: st1)
    have eff: "PlayerPage_effects st st1 = PlayerPage_reveal_effect ?st2"
      using dep by (simp add: PlayerPage_effects_def Let_def)
    show ?thesis
      using PlayerPage_reveal_effect_starts [OF started act] lh
      by (simp add: PlayerPage_refreshRounds_def r pending_refreshRanks_fields eff)
  qed
  from a b GMPage_refreshRounds_fields(1,2) [of s gm] show ?thesis by blast
qed

lemma ex_observing_current:
  "current (fst (refreshRounds ex_store_revealed ex_gm_observing)) = Some ex_round"
  "current (fst (refreshRounds ex_store_revealed ex_player_observing)) = Some ex_round"
  by (simp_all add: refreshRounds_def select_rounds_def nextCurrent_def ex_store_revealed_def
        ex_gm_observing_def ex_player_observing_def ex_round_def closed_r1_def)

lemma ex_observing_before:
  "\<not> current_reveal_started ex_gm_observing" "\<not> revealActive ex_gm_observing"
  "\<not> current_reveal_started ex_player_observing" "\<not> revealActive ex_player_observing"
  "last_handle ex_gm_observing = 0" "last_handle ex_player_observing = 0"
  "current ex_gm_observing = Some closed_r1" "roomCode ex_gm_observing \<noteq> []"
  by (simp_all add: current_reveal_started_def ex_gm_observing_def ex_player_observing_def
        closed_r1_def GMPage_init_def PlayerPage_init_def)

lemma ex_gm_observed:
  "GMPage_refreshRounds ex_store_revealed ex_gm_observing
   = ex_gm_observing\<lparr>rounds := [ex_round], current := Some ex_round\<rparr>"
  by (simp add: GMPage_refreshRounds_def refreshRounds_def select_rounds_def nextCurrent_def
        GMPage_effects_def pending_refreshRanks_def refreshRanks_def select_rank_def
        ex_store_revealed_def ex_gm_observing_def ex_round_def closed_r1_def ex_ranks_def
        GMPage_init_def)

text \<open>
  Claim C7 as stated fails: a game master's page and a participant's page observe the
  same change of \<open>reveal_started\<close> to true; the participant's reveal starts, the game
  master's does not, and its count of shown entries stays 0.
\<close>

theorem reveal_start_paths_counterexample:
  "\<not> current_reveal_started ex_gm_observing
   \<and> current_reveal_started (GMPage_refreshRounds ex_store_revealed ex_gm_observing)
   \<and> \<not> revealActive (GMPage_refreshRounds ex_store_revealed ex_gm_observing)
   \<and> showCountFromBottom (GMPage_refreshRounds ex_store_revealed ex_gm_observing) = 0
   \<and> \<not> current_reveal_started ex_player_observing
   \<and> current_reveal_started (PlayerPage_refreshRounds ex_store_revealed ex_player_observing)
   \<and> revealActive (PlayerPage_refreshRounds ex_store_revealed ex_player_observing)
   \<and> showCountFromBottom (PlayerPage_refreshRounds ex_store_revealed ex_player_observing) = 1"
proof -
  have gm: "current_reveal_started (GMPage_refreshRounds ex_store_revealed ex_gm_observing)"
    "\<not> revealActive (GMPage_refreshRounds ex_store_revealed ex_gm_observing)"
    "showCountFromBottom (GMPage_refreshRounds ex_store_revealed ex_gm_observing) = 0"
    by (simp_all add: ex_gm_observed current_reveal_started_def showCountFromBottom_def
          ex_observing_before) (simp add: ex_round_def)
  have pl: "PlayerPage_refreshRounds ex_store_revealed ex_player_observing
   = ex_player_observing\<lparr>rounds := [ex_round], current := Some ex_round,
        revealActive := True, revealShown := 1, revealTimer := Some 1,
        intervals := [(1, 3)], last_handle := 1, cleanup_pending := True\<rparr>"
    by (simp add: PlayerPage_refreshRounds_def refreshRounds_def select_rounds_def nextCurrent_def
        PlayerPage_effects_def PlayerPage_reveal_effect_def PlayerPage_reveal_body_def
        PlayerPage_reveal_cleanup_def start_stepping_def setInterval_def correctOnlyRanks_def
        pending_refreshRanks_def refreshRanks_def select_rank_def
        ex_store_revealed_def ex_player_observing_def ex_round_def closed_r1_def ex_ranks_def
        PlayerPage_init_def Let_def)
  have p: "current_reveal_started (PlayerPage_refreshRounds ex_store_revealed ex_player_observing)"
    "revealActive (PlayerPage_refreshRounds ex_store_revealed ex_player_observing)"
    "showCountFromBottom (PlayerPage_refreshRounds ex_store_revealed ex_player_observing) = 1"
    by (simp_all add: pl current_reveal_started_def showCountFromBottom_def) (simp add: ex_round_def)
  from gm p ex_observing_before show ?thesis by blast
qed

theorem reveal_start_paths_witness:
  "fst (startReveal ex_store_revealed ex_gm_observing) = startRevealLocal ex_gm_observing
   \<and> \<not> revealActive (GMPage_refreshRounds ex_store_revealed ex_gm_observing)
   \<and> last_handle (GMPage_refreshRounds ex_store_revealed ex_gm_observing) = 0
   \<and> revealActive (PlayerPage_refreshRounds ex_store_revealed ex_player_observing)
   \<and> revealShown (PlayerPage_refreshRounds ex_store_revealed ex_player_observing) = 1
   \<and> revealTimer (PlayerPage_refreshRounds ex_store_revealed ex_player_observing) = Some 1"
proof -
  have up: "\<not> down ex_store_revealed" by (simp add: ex_store_revealed_def)
  have cc: "correct_choice closed_r1 \<noteq> None" by (simp add: closed_r1_def)
  have after: "current_reveal_started (fst (refreshRounds ex_store_revealed ex_player_observing))"
    by (simp add: current_reveal_started_def ex_observing_current) (simp add: ex_round_def)
  show ?thesis
    using reveal_start_paths [of ex_gm_observing closed_r1 ex_store_revealed ex_player_observing]
      up cc after ex_observing_before
    by simp
qed

subsection \<open>The stepping of the reveal count\<close>

lemma interval_tick_live:
  assumes "intervals st = [(h, k)]" "revealTimer st = Some h" "h \<noteq> 0"
  shows "revealShown (interval_tick h st) = min (revealShown st + 1) (int k)"
    and "revealShown st + 1 < int k \<Longrightarrow>
           intervals (interval_tick h st) = [(h, k)] \<and> revealTimer (interval_tick h st) = Some h"
    and "revealShown st + 1 \<ge> int k \<Longrightarrow>
           intervals (interval_tick h st) = [] \<and> revealTimer (interval_tick h st) = None"
  using assms
  by (auto simp: interval_tick_def Let_def clear_revealTimer_def clearInterval_def)

lemma interval_tick_stopped: "intervals st = [] \<Longrightarrow> interval_tick h st = st"
  by (simp add: interval_tick_def)

lemma run_closed_form:
  assumes "run_begun h k s0" "1 \<le> k"
  shows "revealShown ((interval_tick h ^^ n) s0) = min (1 + int n) (int k)
       \<and> (if n = 0 \<or> 1 + int n < int k
           then intervals ((interval_tick h ^^ n) s0) = [(h, k)]
              \<and> revealTimer ((interval_tick h ^^ n) s0) = Some h
           else intervals ((interval_tick h ^^ n) s0) = [])"
proof (induction n)
  case 0
  then show ?case using assms by (simp add: run_begun_def)
next
  case (Suc n)
  let ?s = "(interval_tick h ^^ n) s0"
  show ?case
  proof (cases "n = 0 \<or> 1 + int n < int k")
    case True
    with Suc have live: "intervals ?s = [(h, k)]" "revealTimer ?s = Some h"
      and sh: "revealShown ?s = min (1 + int n) (int k)" by simp_all
    have h0: "h \<noteq> 0" using assms by (simp add: run_begun_def)
    have sh': "revealShown ?s = 1 + int n" using sh True assms(2) by auto
    show ?thesis
      using interval_tick_live [OF live h0] sh' by (auto simp: min_def)
  next
    case False
    with Suc have dead: "intervals ?s = []"
      and sh: "revealShown ?s = min (1 + int n) (int k)" by simp_all
    show ?thesis
      using interval_tick_stopped [OF dead, of h] dead sh False by (auto simp: min_def)
  qed
qed

text \<open>
  Claim C5, as the code has it. Both start paths (\<open>startRevealLocal\<close> on the game
  master's page, the body of the reveal effect on a participant's page), taken with no
  reveal active and no timer running, begin a run: count 1 and one timer, which
  captures the number K of correct entries. For a run with K of at least 1, every
  tick replaces the count \<open>s\<close> by \<open>min (s + 1) K\<close>: the count never decreases, never
  exceeds K and grows by exactly 1 while it is below K. The timer is cleared by the
  tick that computes \<open>s + 1 \<ge> K\<close>: it runs after \<open>n\<close> ticks exactly when \<open>n = 0\<close> or the
  count is still below K. So for K = 1 the timer is started and ends with its first
  tick, which leaves the count at 1. The fixed period of 900 ms is the constant
  \<open>REVEAL_INTERVAL_MS\<close> passed to \<open>setInterval\<close>; time itself is not modelled.
\<close>

theorem reveal_run:
  "(correctOnlyRanks gm \<noteq> [] \<and> \<not> revealActive gm \<and> intervals gm = [] \<longrightarrow>
      run_begun (Suc (last_handle gm)) (length (correctOnlyRanks gm)) (startRevealLocal gm))
   \<and> (current_reveal_started p \<and> \<not> revealActive p \<and> intervals p = [] \<longrightarrow>
      run_begun (Suc (last_handle p)) (length (correctOnlyRanks p)) (PlayerPage_reveal_body p))
   \<and> (run_begun h k s0 \<and> 1 \<le> k \<longrightarrow>
        revealShown s0 = 1
        \<and> (\<forall>n. revealShown ((interval_tick h ^^ n) s0)
                  \<le> revealShown ((interval_tick h ^^ Suc n) s0)
               \<and> revealShown ((interval_tick h ^^ n) s0) \<le> int k
               \<and> (revealShown ((interval_tick h ^^ n) s0) < int k \<longrightarrow>
                    revealShown ((interval_tick h ^^ Suc n) s0)
                      = revealShown ((interval_tick h ^^ n) s0) + 1)
               \<and> intervals ((interval_tick h ^^ n) s0)
                    = (if n = 0 \<or> revealShown ((interval_tick h ^^ n) s0) < int k
                       then [(h, k)] else [])))"
proof -
  have a: "run_begun (Suc (last_handle gm)) (length (correctOnlyRanks gm)) (startRevealLocal gm)"
    if "correctOnlyRanks gm \<noteq> [] \<and> \<not> revealActive gm \<and> intervals gm = []"
    using that by (simp add: run_begun_def startRevealLocal_def start_stepping_fields)
  have b: "run_begun (Suc (last_handle p)) (length (correctOnlyRanks p)) (PlayerPage_reveal_body p)"
    if "current_reveal_started p \<and> \<not> revealActive p \<and> intervals p = []"
    using that
    by (auto simp: run_begun_def PlayerPage_reveal_body_def current_reveal_started_def
          start_stepping_fields split: option.splits)
  have c: "revealShown s0 = 1
        \<and> (\<forall>n. revealShown ((interval_tick h ^^ n) s0)
                  \<le> revealShown ((interval_tick h ^^ Suc n) s0)
               \<and> revealShown ((interval_tick h ^^ n) s0) \<le> int k
               \<and> (revealShown ((interval_tick h ^^ n) s0) < int k \<longrightarrow>
                    revealShown ((interval_tick h ^^ Suc n) s0)
                      = revealShown ((interval_tick h ^^ n) s0) + 1)
               \<and> intervals ((interval_tick h ^^ n) s0)
                    = (if n = 0 \<or> revealShown ((interval_tick h ^^ n) s0) < int k
                       then [(h, k)] else []))"
    if h: "run_begun h k s0 \<and> 1 \<le> k"
  proof -
    from h have rb: "run_begun h k s0" and k: "1 \<le> k" by simp_all
    have cf: "revealShown ((interval_tick h ^^ n) s0) = min (1 + int n) (int k)" for n
      using run_closed_form [OF rb k, of n] by simp
    have iv: "intervals ((interval_tick h ^^ n) s0)
                = (if n = 0 \<or> 1 + int n < int k then [(h, k)] else [])" for n
      using run_closed_form [OF rb k, of n] by (simp split: if_splits)
    have "revealShown s0 = 1" using rb by (simp add: run_begun_def)
    moreover have "revealShown ((interval_tick h ^^ n) s0)
                  \<le> revealShown ((interval_tick h ^^ Suc n) s0)
               \<and> revealShown ((interval_tick h ^^ n) s0) \<le> int k
               \<and> (revealShown ((interval_tick h ^^ n) s0) < int k \<longrightarrow>
                    revealShown ((interval_tick h ^^ Suc n) s0)
                      = revealShown ((interval_tick h ^^ n) s0) + 1)
               \<and> intervals ((interval_tick h ^^ n) s0)
                    = (if n = 0 \<or> revealShown ((interval_tick h ^^ n) s0) < int k
                       then [(h, k)] else [])" for n
      unfolding cf [of n] cf [of "Suc n"] iv [of n] using k by (auto simp: min_def)
    ultimately show ?thesis by blast
  qed
  from a b c show ?thesis by blast
qed

text \<open>
  Claim C5 as stated fails for a single correct entry: the count is K = 1 as soon as
  the run begins and the timer is nevertheless running, and the tick that follows
  does not increase the count.
\<close>

theorem reveal_run_counterexample:
  "length (correctOnlyRanks ex_gm_one_correct) = 1
   \<and> revealShown (startRevealLocal ex_gm_one_correct) = 1
   \<and> intervals (startRevealLocal ex_gm_one_correct) = [(1, 1)]
   \<and> revealShown (interval_tick 1 (startRevealLocal ex_gm_one_correct)) = 1
   \<and> intervals (interval_tick 1 (startRevealLocal ex_gm_one_correct)) = []"
proof -
  have k: "correctOnlyRanks ex_gm_one_correct = [ex_ranks ! 0]"
    by (simp add: correctOnlyRanks_def ex_gm_one_correct_def ex_round_def ex_ranks_def)
  have s0: "startRevealLocal ex_gm_one_correct
      = ex_gm_one_correct\<lparr>revealActive := True, revealShown := 1, revealTimer := Some 1,
           intervals := [(1, 1)], last_handle := 1\<rparr>"
    by (simp add: startRevealLocal_def start_stepping_def setInterval_def k)
       (simp add: ex_gm_one_correct_def GMPage_init_def)
  show ?thesis
    unfolding s0
    by (simp add: k interval_tick_def clear_revealTimer_def clearInterval_def)
qed

theorem reveal_run_witness:
  "run_begun 1 3 (startRevealLocal ex_gm_observing)
   \<and> run_begun 1 3 (PlayerPage_reveal_body (ex_player_observing\<lparr>current := Some ex_round\<rparr>))
   \<and> revealShown ((interval_tick 1 ^^ 1) (startRevealLocal ex_gm_observing)) = 2
   \<and> revealShown ((interval_tick 1 ^^ 2) (startRevealLocal ex_gm_observing)) = 3
   \<and> revealShown ((interval_tick 1 ^^ 3) (startRevealLocal ex_gm_observing)) = 3
   \<and> intervals ((interval_tick 1 ^^ 1) (startRevealLocal ex_gm_observing)) = [(1, 3)]
   \<and> intervals ((interval_tick 1 ^^ 2) (startRevealLocal ex_gm_observing)) = []"
proof -
  let ?p = "ex_player_observing\<lparr>current := Some ex_round\<rparr>"
  let ?s0 = "startRevealLocal ex_gm_observing"
  have gm: "length (correctOnlyRanks ex_gm_observing) = 3" "\<not> revealActive ex_gm_observing"
    "intervals ex_gm_observing = []" "last_handle ex_gm_observing = 0"
    by (simp_all add: correctOnlyRanks_def ex_gm_observing_def closed_r1_def ex_ranks_def
          GMPage_init_def)
  have pl: "length (correctOnlyRanks ?p) = 3" "\<not> revealActive ?p" "intervals ?p = []"
    "last_handle ?p = 0" "current_reveal_started ?p"
    by (simp_all add: correctOnlyRanks_def current_reveal_started_def ex_player_observing_def
          ex_round_def ex_ranks_def PlayerPage_init_def)
  have ne: "correctOnlyRanks ex_gm_observing \<noteq> []" using gm(1) by auto
  have a: "run_begun 1 3 ?s0"
    using reveal_run [of ex_gm_observing ?p 1 3 ?s0] gm ne by simp
  have b: "run_begun 1 3 (PlayerPage_reveal_body ?p)"
    using reveal_run [of ex_gm_observing ?p 1 3 ?s0] pl by simp
  have c: "\<forall>n. (revealShown ((interval_tick 1 ^^ n) ?s0) < 3 \<longrightarrow>
                revealShown ((interval_tick 1 ^^ Suc n) ?s0)
                  = revealShown ((interval_tick 1 ^^ n) ?s0) + 1)
            \<and> revealShown ((interval_tick 1 ^^ n) ?s0)
                  \<le> revealShown ((interval_tick 1 ^^ Suc n) ?s0)
            \<and> revealShown ((interval_tick 1 ^^ n) ?s0) \<le> 3
            \<and> intervals ((interval_tick 1 ^^ n) ?s0)
                 = (if n = 0 \<or> revealShown ((interval_tick 1 ^^ n) ?s0) < 3
                    then [(1, 3)] else [])"
    and c0: "revealShown ?s0 = 1"
    using reveal_run [of ex_gm_observing ?p 1 3 ?s0] a by simp_all
  have s1: "revealShown ((interval_tick 1 ^^ 1) ?s0) = 2"
    using c [rule_format, of 0] c0 by simp
  have s2: "revealShown ((interval_tick 1 ^^ 2) ?s0) = 3"
    using c [rule_format, of 1] s1 by (simp add: numeral_2_eq_2)
  have s3: "revealShown ((interval_tick 1 ^^ 3) ?s0) = 3"
    using c [rule_format, of 2] c [rule_format, of 3] s2
    by (simp add: numeral_3_eq_3 numeral_2_eq_2)
  have i1: "intervals ((interval_tick 1 ^^ 1) ?s0) = [(1, 3)]"
    using c [rule_format, of 1] s1 by simp
  have i2: "intervals ((interval_tick 1 ^^ 2) ?s0) = []"
    using c [rule_format, of 2] s2 by simp
  from a b s1 s2 s3 i1 i2 show ?thesis by blast
qed

subsection \<open>One stepping timer at a time\<close>

lemma one_timer_reset: "one_timer st \<Longrightarrow> intervals (reset_reveal st) = []"
  by (auto simp: one_timer_def reset_reveal_def clearInterval_def Let_def split: option.splits)

lemma one_timer_start:
  "intervals st = [] \<Longrightarrow> one_timer (start_stepping st)"
  by (simp add: one_timer_def start_stepping_fields)

lemma one_timer_tick: "one_timer st \<Longrightarrow> one_timer (interval_tick h st)"
proof -
  assume ot: "one_timer st"
  show ?thesis
  proof (cases "intervals st = []")
    case True
    then show ?thesis using ot by (simp add: interval_tick_stopped)
  next
    case False
    with ot obtain h' k where live: "intervals st = [(h', k)]" "revealTimer st = Some h'"
      "h' \<noteq> 0" "revealActive st" by (auto simp: one_timer_def)
    show ?thesis
    proof (cases "h = h'")
      case True
      then show ?thesis using live
        by (auto simp: one_timer_def interval_tick_def Let_def clear_revealTimer_def
              clearInterval_def)
    next
      case False
      then have "interval_tick h st = st" using live by (simp add: interval_tick_def)
      then show ?thesis using ot by simp
    qed
  qed
qed

lemma one_timer_same: "same_reveal st st' \<Longrightarrow> one_timer st \<Longrightarrow> one_timer st'"
  by (simp add: one_timer_def same_reveal_def)

lemma GMPage_reach_one_timer: "GMPage_reach gm \<Longrightarrow> one_timer gm"
proof (induction rule: GMPage_reach.induct)
  case init
  then show ?case by (simp add: one_timer_def GMPage_init_def)
next
  case (update gm gm')
  then have "one_timer gm'" using one_timer_same by blast
  then show ?case
    using one_timer_reset [of gm'] by (auto simp: GMPage_effects_def one_timer_def)
next
  case (start gm)
  show ?case
  proof (cases "correctOnlyRanks gm = [] \<or> revealActive gm")
    case True
    then show ?thesis using start by (simp add: startRevealLocal_def)
  next
    case False
    then have "intervals gm = []" using start by (auto simp: one_timer_def)
    then show ?thesis using False by (simp add: startRevealLocal_def one_timer_start)
  qed
next
  case (tick gm h)
  then show ?case by (simp add: one_timer_tick)
qed


lemma cleanup_clears:
  "player_timer st \<Longrightarrow> intervals (PlayerPage_reveal_cleanup st) = []"
  by (auto simp: player_timer_def one_timer_def PlayerPage_reveal_cleanup_def
        clear_revealTimer_def clearInterval_def split: option.splits)

lemma cleanup_other_fields:
  "cleanup_pending (PlayerPage_reveal_cleanup st) = cleanup_pending st"
  by (simp add: PlayerPage_reveal_cleanup_def clear_revealTimer_def clearInterval_def
        split: option.splits)

lemma body_after_cleanup:
  "intervals st = [] \<Longrightarrow> player_timer (PlayerPage_reveal_body st)"
proof -
  assume e: "intervals st = []"
  show ?thesis
  proof (cases "current_reveal_started st")
    case False
    then have "PlayerPage_reveal_body st = (reset_reveal st)\<lparr>cleanup_pending := False\<rparr>"
      by (auto simp: PlayerPage_reveal_body_def current_reveal_started_def split: option.splits)
    moreover have "intervals (reset_reveal st) = []"
      using e by (simp add: one_timer_reset one_timer_def)
    ultimately show ?thesis by (simp add: player_timer_def one_timer_def)
  next
    case True
    then have b: "PlayerPage_reveal_body st
        = (if \<not> revealActive st then start_stepping st else st)\<lparr>cleanup_pending := True\<rparr>"
      by (auto simp: PlayerPage_reveal_body_def current_reveal_started_def split: option.splits)
    show ?thesis
    proof (cases "revealActive st")
      case True
      then show ?thesis using b e by (simp add: player_timer_def one_timer_def)
    next
      case False
      then show ?thesis using b e one_timer_start [OF e] True
        by (simp add: player_timer_def one_timer_def start_stepping_fields
              current_reveal_started_def)
    qed
  qed
qed

lemma player_timer_effect: "player_timer st \<Longrightarrow> player_timer (PlayerPage_reveal_effect st)"
  by (simp add: PlayerPage_reveal_effect_def body_after_cleanup cleanup_clears)

lemma player_timer_round_effect:
  "player_timer st \<Longrightarrow> player_timer (PlayerPage_round_effect st)"
  by (simp add: player_timer_def one_timer_def current_reveal_started_def
        PlayerPage_round_effect_fields)

lemma player_timer_effects:
  assumes inv: "player_timer st'"
  shows "player_timer (PlayerPage_effects st st')"
proof -
  let ?st1 = "if map_option id_round (current st') \<noteq> map_option id_round (current st)
                    \<or> map_option id_player (me st') \<noteq> map_option id_player (me st)
                 then PlayerPage_round_effect st' else st'"
  have "player_timer ?st1" using inv by (simp add: player_timer_round_effect)
  then show ?thesis
    by (simp add: PlayerPage_effects_def Let_def player_timer_effect)
qed

lemma dep_unchanged_started:
  "map_option reveal_started (current st') = map_option reveal_started (current st) \<Longrightarrow>
   current_reveal_started st' = current_reveal_started st"
  by (auto simp: current_reveal_started_def split: option.splits)

lemma PlayerPage_effects_dep_unchanged:
  "map_option reveal_started (current st') = map_option reveal_started (current st) \<Longrightarrow>
   same_reveal st' (PlayerPage_effects st st')
   \<and> cleanup_pending (PlayerPage_effects st st') = cleanup_pending st'
   \<and> current (PlayerPage_effects st st') = current st'"
  by (simp add: PlayerPage_effects_def Let_def same_reveal_def PlayerPage_round_effect_fields)

lemma cleanup_empty:
  "intervals x = [] \<Longrightarrow> intervals (PlayerPage_reveal_cleanup x) = []"
  by (simp add: PlayerPage_reveal_cleanup_def clear_revealTimer_def clearInterval_def
        split: option.splits)

lemma cleanup_live:
  "intervals x = [(h, k)] \<Longrightarrow> revealTimer x = Some h \<Longrightarrow> h \<noteq> 0 \<Longrightarrow> cleanup_pending x \<Longrightarrow>
   intervals (PlayerPage_reveal_cleanup x) = []"
  by (simp add: PlayerPage_reveal_cleanup_def clear_revealTimer_def clearInterval_def)

lemma player_timer_changed_dep:
  assumes inv: "player_timer st"
    and iv: "intervals st' = intervals st" and rt: "revealTimer st' = revealTimer st"
    and pend: "cleanup_pending st' = cleanup_pending st"
    and dep: "map_option reveal_started (current st') \<noteq> map_option reveal_started (current st)"
  shows "player_timer (PlayerPage_effects st st')"
proof -
  define st1 where "st1 =
     (if map_option id_round (current st') \<noteq> map_option id_round (current st)
           \<or> map_option id_player (me st') \<noteq> map_option id_player (me st)
      then PlayerPage_round_effect st' else st')"
  have eff: "PlayerPage_effects st st' = PlayerPage_reveal_effect st1"
    using dep by (simp add: PlayerPage_effects_def Let_def st1_def)
  have f: "intervals st1 = intervals st" "revealTimer st1 = revealTimer st"
    "cleanup_pending st1 = cleanup_pending st"
    using iv rt pend by (simp_all add: st1_def PlayerPage_round_effect_fields)
  have "intervals (PlayerPage_reveal_cleanup st1) = []"
  proof (cases "intervals st = []")
    case True
    then show ?thesis using f by (simp add: cleanup_empty)
  next
    case False
    with inv obtain h k where "intervals st = [(h, k)]" "revealTimer st = Some h" "h \<noteq> 0"
      "cleanup_pending st"
      by (auto simp: player_timer_def one_timer_def)
    then show ?thesis using f cleanup_live [of st1 h k] by simp
  qed
  then show ?thesis
    unfolding eff PlayerPage_reveal_effect_def by (rule body_after_cleanup)
qed

lemma player_timer_update:
  assumes inv: "player_timer st" and same: "same_reveal st st'"
    and pend: "cleanup_pending st' = cleanup_pending st"
  shows "player_timer (PlayerPage_effects st st')"
proof (cases "map_option reveal_started (current st') = map_option reveal_started (current st)")
  case True
  have st': "player_timer st'"
    using inv same pend dep_unchanged_started [OF True]
    by (simp add: player_timer_def one_timer_def same_reveal_def)
  then show ?thesis by (rule player_timer_effects)
next
  case False
  show ?thesis
    using player_timer_changed_dep [OF inv _ _ pend False] same
    by (simp add: same_reveal_def)
qed

lemma player_timer_tick: "player_timer st \<Longrightarrow> player_timer (interval_tick h st)"
proof -
  assume inv: "player_timer st"
  then have ot: "one_timer (interval_tick h st)" by (simp add: player_timer_def one_timer_tick)
  have keep: "cleanup_pending (interval_tick h st) = cleanup_pending st"
    "current (interval_tick h st) = current st"
    by (simp_all add: interval_tick_def Let_def clear_revealTimer_def clearInterval_def
          split: option.splits)
  have "intervals (interval_tick h st) \<noteq> [] \<Longrightarrow> intervals st \<noteq> []"
    by (auto simp: interval_tick_def)
  then show ?thesis using inv ot keep
    by (auto simp: player_timer_def current_reveal_started_def)
qed

lemma player_timer_goTop: "player_timer st \<Longrightarrow> player_timer (PlayerPage_goTop st)"
proof -
  assume inv: "player_timer st"
  define st' where "st' = goTopLocalOnly (st\<lparr>me := None, revealActive := False, revealShown := 0\<rparr>)"
  have f: "current st' = None" "intervals st' = intervals st"
    "revealTimer st' = revealTimer st" "cleanup_pending st' = cleanup_pending st"
    by (simp_all add: st'_def goTopLocalOnly_def)
  have go: "PlayerPage_goTop st = PlayerPage_effects st st'"
    by (simp add: PlayerPage_goTop_def st'_def)
  show ?thesis
  proof (cases "intervals st = []")
    case True
    then have "player_timer st'" using f by (simp add: player_timer_def one_timer_def)
    then show ?thesis unfolding go by (rule player_timer_effects)
  next
    case False
    with inv have "current_reveal_started st" by (simp add: player_timer_def)
    then have dep: "map_option reveal_started (current st') \<noteq> map_option reveal_started (current st)"
      using f(1) by (auto simp: current_reveal_started_def split: option.splits)
    show ?thesis
      unfolding go using player_timer_changed_dep [OF inv f(2) f(3) f(4) dep] .
  qed
qed

lemma PlayerPage_reach_timer: "PlayerPage_reach st \<Longrightarrow> player_timer st"
proof (induction rule: PlayerPage_reach.induct)
  case init
  then show ?case by (simp add: player_timer_def one_timer_def PlayerPage_init_def)
next
  case (update st st')
  then show ?case by (simp add: player_timer_update)
next
  case (tick st h)
  then show ?case by (simp add: player_timer_tick)
next
  case (goTop st)
  then show ?case by (simp add: player_timer_goTop)
qed

lemma one_timer_length: "one_timer st \<Longrightarrow> length (intervals st) \<le> 1"
  by (auto simp: one_timer_def)

text \<open>The handlers of both pages stay within the reachable states.\<close>

lemma GMPage_reach_plain:
  assumes "GMPage_reach gm" "same_reveal gm gm'" "current gm' = current gm"
  shows "GMPage_reach gm'"
proof -
  have "GMPage_effects gm gm' = gm'" using assms(3) by (simp add: GMPage_effects_def)
  then show ?thesis using GMPage_reach.update [OF assms(1,2)] by simp
qed

lemma GMPage_reach_refreshRounds:
  assumes "GMPage_reach gm"
  shows "GMPage_reach (GMPage_refreshRounds s gm)"
proof -
  obtain gm1 req where r: "refreshRounds s gm = (gm1, req)" by (cases "refreshRounds s gm")
  then have gm1: "gm1 = fst (refreshRounds s gm)" by simp
  have same: "same_reveal gm gm1" by (simp add: same_reveal_def gm1 refreshRounds_client_fields)
  have e: "GMPage_reach (GMPage_effects gm gm1)" using assms same by (rule GMPage_reach.update)
  have "GMPage_reach (pending_refreshRanks s req (GMPage_effects gm gm1))"
    using e by (rule GMPage_reach_plain) (simp_all add: same_reveal_def pending_refreshRanks_fields)
  then show ?thesis by (simp add: GMPage_refreshRounds_def r)
qed

lemma GMPage_reach_alert: "GMPage_reach gm \<Longrightarrow> GMPage_reach (alert a gm)"
  by (erule GMPage_reach_plain) (simp_all add: same_reveal_def alert_def)

lemma GMPage_reach_startReveal:
  assumes "GMPage_reach gm"
  shows "GMPage_reach (fst (startReveal s gm))"
  using assms GMPage_reach_alert GMPage_reach.start
  by (auto simp: startReveal_def split: option.splits prod.splits)

lemma GMPage_reach_viewRound:
  assumes "GMPage_reach gm"
  shows "GMPage_reach (GMPage_viewRound s r gm)"
proof -
  let ?gm1 = "GMPage_viewRound_click r gm"
  let ?gm2 = "refreshRanks s (id_round r) ?gm1"
  have e: "GMPage_reach ?gm1"
    unfolding GMPage_viewRound_click_def
    using assms by (rule GMPage_reach.update) (simp add: same_reveal_def)
  have f: "GMPage_reach ?gm2"
    using e
    by (rule GMPage_reach_plain) (simp_all add: same_reveal_def refreshRanks_def split: sum.splits)
  have "GMPage_reach (refreshPlayers s ?gm2)"
    using f
    by (rule GMPage_reach_plain) (simp_all add: same_reveal_def refreshPlayers_def split: sum.splits)
  then have "GMPage_reach (GMPage_refreshRounds s (refreshPlayers s ?gm2))"
    by (rule GMPage_reach_refreshRounds)
  then show ?thesis using f by (simp add: GMPage_viewRound_def Let_def)
qed

lemma GMPage_reach_newRound:
  assumes "GMPage_reach gm"
  shows "GMPage_reach (fst (newRound s gm))"
proof -
  have e: "GMPage_reach (GMPage_effects gm (gm\<lparr>current := Some r\<rparr>))" for r
    using assms by (rule GMPage_reach.update) (simp add: same_reveal_def)
  show ?thesis
    using assms e GMPage_reach_alert GMPage_reach_refreshRounds
    by (auto simp: newRound_def Let_def split: option.splits sum.splits prod.splits)
qed

lemma GMPage_reach_applyScores:
  assumes "GMPage_reach gm"
  shows "GMPage_reach (fst (applyScores s gm))"
proof -
  have p: "GMPage_reach (gm\<lparr>isScoring := False\<rparr>)"
    using assms by (rule GMPage_reach_plain) (simp_all add: same_reveal_def)
  have q: "GMPage_reach (refreshPlayers s' (gm\<lparr>isScoring := False\<rparr>))" for s'
    using p by (rule GMPage_reach_plain)
      (simp_all add: same_reveal_def refreshPlayers_def split: sum.splits)
  show ?thesis
    using assms p q GMPage_reach_alert GMPage_reach_refreshRounds
    by (auto simp: applyScores_def Let_def split: option.splits prod.splits)
qed

lemma PlayerPage_reach_plain:
  assumes "PlayerPage_reach st" "same_reveal st st'" "cleanup_pending st' = cleanup_pending st"
    "current st' = current st" "me st' = me st"
  shows "PlayerPage_reach st'"
proof -
  have "PlayerPage_effects st st' = st'"
    using assms(4,5) by (simp add: PlayerPage_effects_def)
  then show ?thesis using PlayerPage_reach.update [OF assms(1,2,3)] by metis
qed

lemma PlayerPage_reach_refreshRounds:
  assumes "PlayerPage_reach st"
  shows "PlayerPage_reach (PlayerPage_refreshRounds s st)"
proof -
  obtain st1 req where r: "refreshRounds s st = (st1, req)" by (cases "refreshRounds s st")
  then have st1: "st1 = fst (refreshRounds s st)" by simp
  have "same_reveal st st1" "cleanup_pending st1 = cleanup_pending st"
    by (simp_all add: same_reveal_def st1 refreshRounds_client_fields)
       (simp add: refreshRounds_def split: sum.splits)
  then have e: "PlayerPage_reach (PlayerPage_effects st st1)"
    using assms PlayerPage_reach.update by blast
  have "PlayerPage_reach (pending_refreshRanks s req (PlayerPage_effects st st1))"
    using e by (rule PlayerPage_reach_plain)
      (simp_all add: same_reveal_def pending_refreshRanks_fields pending_refreshRanks_def
         refreshRanks_def split: option.splits sum.splits)
  then show ?thesis by (simp add: PlayerPage_refreshRounds_def r)
qed

lemma PlayerPage_reach_lookup_done:
  assumes "PlayerPage_reach st"
  shows "PlayerPage_reach (PlayerPage_lookup_done s n st)"
  using assms
  by (rule PlayerPage_reach_plain)
     (simp_all add: same_reveal_def PlayerPage_lookup_done_def PlayerPage_lookup_reply_def
        split: option.splits prod.splits)

lemma PlayerPage_reach_answer:
  assumes "PlayerPage_reach st"
  shows "PlayerPage_reach (fst (answer s ch st))"
proof -
  have "PlayerPage_reach (st\<lparr>myAnswerChoice := Some ch\<rparr>)"
    using assms by (rule PlayerPage_reach_plain) (simp_all add: same_reveal_def)
  then show ?thesis using assms
    by (auto simp: answer_def answer_reply_def split: option.splits prod.splits)
qed

text \<open>
  As long as every handler runs to its end before the next one starts:
  \<open>startRevealLocal\<close> changes nothing when the list of correct entries is empty or a
  reveal is already active; the body of the participant's reveal effect, run for a
  started round while a reveal is active, changes no cell of the page and starts no
  timer (it only returns its cleanup function again); and in every state either page
  can reach, at most one stepping timer is running.
\<close>

theorem single_timer_in_turn:
  "(correctOnlyRanks gm = [] \<or> revealActive gm \<longrightarrow> startRevealLocal gm = gm)
   \<and> (current_reveal_started p \<and> revealActive p \<longrightarrow>
        PlayerPage_reveal_body p = p\<lparr>cleanup_pending := True\<rparr>)
   \<and> (GMPage_reach gm \<longrightarrow> length (intervals gm) \<le> 1)
   \<and> (PlayerPage_reach p \<longrightarrow> length (intervals p) \<le> 1)"
proof -
  have a: "startRevealLocal gm = gm" if "correctOnlyRanks gm = [] \<or> revealActive gm"
    using that by (auto simp: startRevealLocal_def)
  have b: "PlayerPage_reveal_body p = p\<lparr>cleanup_pending := True\<rparr>"
    if "current_reveal_started p \<and> revealActive p"
    using that
    by (auto simp: PlayerPage_reveal_body_def current_reveal_started_def split: option.splits)
  have c: "length (intervals gm) \<le> 1" if "GMPage_reach gm"
    using one_timer_length [OF GMPage_reach_one_timer [OF that]] .
  have d: "length (intervals p) \<le> 1" if "PlayerPage_reach p"
    using PlayerPage_reach_timer [OF that] one_timer_length [of p] by (simp add: player_timer_def)
  from a b c d show ?thesis by blast
qed

lemma ex_gm_observing_reach: "GMPage_reach ex_gm_observing"
proof -
  have same: "same_reveal GMPage_init ex_gm_observing"
    by (simp add: same_reveal_def ex_gm_observing_def)
  have "GMPage_effects GMPage_init ex_gm_observing = ex_gm_observing"
    by (simp add: GMPage_effects_def reset_reveal_def ex_gm_observing_def GMPage_init_def)
  then show ?thesis using GMPage_reach.update [OF GMPage_reach.init same] by simp
qed

lemma ex_player_observing_reach: "PlayerPage_reach ex_player_observing"
proof -
  have same: "same_reveal PlayerPage_init ex_player_observing"
    "cleanup_pending ex_player_observing = cleanup_pending PlayerPage_init"
    by (simp_all add: same_reveal_def ex_player_observing_def)
  have "PlayerPage_effects PlayerPage_init ex_player_observing = ex_player_observing"
    by (simp add: PlayerPage_effects_def PlayerPage_round_effect_def PlayerPage_reveal_effect_def
          PlayerPage_reveal_cleanup_def PlayerPage_reveal_body_def reset_reveal_def
          ex_player_observing_def PlayerPage_init_def closed_r1_def Let_def)
  then show ?thesis
    using PlayerPage_reach.update [OF PlayerPage_reach.init same] by metis
qed

theorem single_timer_in_turn_example:
  "startRevealLocal ex_gm_revealing = ex_gm_revealing
   \<and> startRevealLocal ex_gm_wrong_only = ex_gm_wrong_only
   \<and> PlayerPage_reveal_body ex_player_revealing = ex_player_revealing\<lparr>cleanup_pending := True\<rparr>
   \<and> length (intervals (startRevealLocal (startRevealLocal ex_gm_observing))) \<le> 1
   \<and> length (intervals (PlayerPage_refreshRounds ex_store_revealed ex_player_observing)) \<le> 1"
proof -
  let ?g = "startRevealLocal (startRevealLocal ex_gm_observing)"
  let ?p = "PlayerPage_refreshRounds ex_store_revealed ex_player_observing"
  have g: "GMPage_reach ?g"
    using ex_gm_observing_reach by (intro GMPage_reach.start)
  have p: "PlayerPage_reach ?p"
    using ex_player_observing_reach by (rule PlayerPage_reach_refreshRounds)
  have a: "startRevealLocal ex_gm_revealing = ex_gm_revealing"
    using single_timer_in_turn [of ex_gm_revealing ex_player_revealing]
    by (simp add: ex_gm_revealing_facts)
  have b: "startRevealLocal ex_gm_wrong_only = ex_gm_wrong_only"
    using single_timer_in_turn [of ex_gm_wrong_only ex_player_revealing]
    by (simp add: ex_gm_wrong_only_fields)
  have c: "PlayerPage_reveal_body ex_player_revealing = ex_player_revealing\<lparr>cleanup_pending := True\<rparr>"
    using single_timer_in_turn [of ex_gm_revealing ex_player_revealing]
    by (simp add: ex_player_revealing_facts)
  have d: "length (intervals ?g) \<le> 1"
    using single_timer_in_turn [of ?g ?p] g by blast
  have e: "length (intervals ?p) \<le> 1"
    using single_timer_in_turn [of ?g ?p] p by blast
  from a b c d e show ?thesis by blast
qed

subsection \<open>Submitting an answer\<close>

lemma insert_answer_conflict:
  "fst (insert_answer s a) = Some e \<Longrightarrow> snd (insert_answer s a) = s"
  by (auto simp: insert_answer_def split: if_splits)

lemma insert_answer_23505:
  "fst (insert_answer s a) = Some e \<Longrightarrow> err_code e = ''23505'' \<Longrightarrow>
   has_answer s (round_id_answer a) (player_id_answer a)"
  by (auto simp: insert_answer_def has_answer_def unavailable_def split: if_splits)

lemma insert_answer_existing:
  "\<not> down s \<Longrightarrow> has_answer s (round_id_answer a) (player_id_answer a) \<Longrightarrow>
   insert_answer s a = (Some (StoreError ''23505'' ''duplicate key value violates unique constraint''), s)"
  by (auto simp: insert_answer_def has_answer_def)

lemma answer_reply_error: "answer_reply ch (Some e) st = st"
  by (simp add: answer_reply_def)

lemma filter_none: "\<forall>x \<in> set xs. \<not> P x \<Longrightarrow> filter P xs = []"
  by (induction xs) auto

lemma insert_answer_fresh:
  assumes "\<not> down s" "\<not> has_answer s (round_id_answer a) (player_id_answer a)"
  shows "insert_answer s a = (None, s\<lparr>answers_tbl := answers_tbl s @ [a]\<rparr>)"
    and "select_answer_choice (s\<lparr>answers_tbl := answers_tbl s @ [a]\<rparr>)
           (round_id_answer a) (player_id_answer a) = Some (choice_answer a)"
    and "has_answer (s\<lparr>answers_tbl := answers_tbl s @ [a]\<rparr>) (round_id_answer a) (player_id_answer a)"
proof -
  show "insert_answer s a = (None, s\<lparr>answers_tbl := answers_tbl s @ [a]\<rparr>)"
    using assms by (auto simp: insert_answer_def has_answer_def)
  have "filter (\<lambda>b. round_id_answer b = round_id_answer a \<and> player_id_answer b = player_id_answer a)
          (answers_tbl s) = []"
    using assms(2) by (intro filter_none) (auto simp: has_answer_def)
  then show "select_answer_choice (s\<lparr>answers_tbl := answers_tbl s @ [a]\<rparr>)
           (round_id_answer a) (player_id_answer a) = Some (choice_answer a)"
    using assms(1) by (simp add: select_answer_choice_def)
  show "has_answer (s\<lparr>answers_tbl := answers_tbl s @ [a]\<rparr>) (round_id_answer a) (player_id_answer a)"
    by (simp add: has_answer_def)
qed

text \<open>
  Claim C2. When a submission reaches the store and the store reports the uniqueness
  conflict (code 23505), a row for the pair exists already, and \<open>answer\<close> returns the
  page and the store as they were: nothing is shown to the participant, no row is
  written or changed, and the pinned choice is untouched. After a first successful
  submission of \<open>c1\<close> the pinned choice and the stored choice are \<open>c1\<close>; a second
  submission of \<open>c2\<close> is refused by the page once it shows the pin, and one sent from
  the render before the pin meets the conflict: the store keeps \<open>c1\<close> and the reply
  leaves the pin at \<open>c1\<close>.
\<close>

theorem answer_conflict_absorbed:
  "(answer_request ch st = Some payload \<and> fst (insert_answer s payload) = Some e
      \<and> err_code e = ''23505'' \<longrightarrow>
        has_answer s (round_id_answer payload) (player_id_answer payload)
        \<and> answer s ch st = (st, s))
   \<and> (me st = Some m \<and> current st = Some r \<and> status r = Open \<and> myAnswerChoice st = None
        \<and> \<not> down s \<and> \<not> has_answer s (id_round r) (id_player m) \<longrightarrow>
        (\<exists>st1 s1. answer s c1 st = (st1, s1)
           \<and> myAnswerChoice st1 = Some c1
           \<and> select_answer_choice s1 (id_round r) (id_player m) = Some c1
           \<and> answer s1 c2 st1 = (st1, s1)
           \<and> (\<exists>payload2 e2. answer_request c2 st = Some payload2
                 \<and> insert_answer s1 payload2 = (Some e2, s1) \<and> err_code e2 = ''23505''
                 \<and> answer_reply c2 (Some e2) st1 = st1)))"
proof -
  have a: "has_answer s (round_id_answer payload) (player_id_answer payload)
        \<and> answer s ch st = (st, s)"
    if h: "answer_request ch st = Some payload \<and> fst (insert_answer s payload) = Some e
      \<and> err_code e = ''23505''"
  proof -
    have "answer s ch st = (answer_reply ch (Some e) st, snd (insert_answer s payload))"
      using h by (cases "insert_answer s payload") (simp add: answer_def)
    then have "answer s ch st = (st, s)"
      using h insert_answer_conflict [of s payload e] by (simp add: answer_reply_error)
    then show ?thesis using h insert_answer_23505 [of s payload e] by simp
  qed
  have b: "\<exists>st1 s1. answer s c1 st = (st1, s1)
           \<and> myAnswerChoice st1 = Some c1
           \<and> select_answer_choice s1 (id_round r) (id_player m) = Some c1
           \<and> answer s1 c2 st1 = (st1, s1)
           \<and> (\<exists>payload2 e2. answer_request c2 st = Some payload2
                 \<and> insert_answer s1 payload2 = (Some e2, s1) \<and> err_code e2 = ''23505''
                 \<and> answer_reply c2 (Some e2) st1 = st1)"
    if h: "me st = Some m \<and> current st = Some r \<and> status r = Open \<and> myAnswerChoice st = None
        \<and> \<not> down s \<and> \<not> has_answer s (id_round r) (id_player m)"
  proof -
    define p1 where "p1 = \<lparr>room_code_answer = room_code_player m, round_id_answer = id_round r,
                        player_id_answer = id_player m, choice_answer = c1\<rparr>"
    define p2 where "p2 = \<lparr>room_code_answer = room_code_player m, round_id_answer = id_round r,
                        player_id_answer = id_player m, choice_answer = c2\<rparr>"
    define s1 where "s1 = s\<lparr>answers_tbl := answers_tbl s @ [p1]\<rparr>"
    define st1 where "st1 = st\<lparr>myAnswerChoice := Some c1\<rparr>"
    have req1: "answer_request c1 st = Some p1" and req2: "answer_request c2 st = Some p2"
      using h by (simp_all add: answer_request_def p1_def p2_def)
    have key: "round_id_answer p1 = id_round r" "player_id_answer p1 = id_player m"
      "choice_answer p1 = c1" "round_id_answer p2 = id_round r" "player_id_answer p2 = id_player m"
      by (simp_all add: p1_def p2_def)
    have fresh: "\<not> has_answer s (round_id_answer p1) (player_id_answer p1)" and up: "\<not> down s"
      using h key by simp_all
    have ins1: "insert_answer s p1 = (None, s1)"
      using insert_answer_fresh(1) [OF up fresh] by (simp add: s1_def)
    have sel: "select_answer_choice s1 (id_round r) (id_player m) = Some c1"
      using insert_answer_fresh(2) [OF up fresh] key by (simp add: s1_def)
    have has1: "has_answer s1 (round_id_answer p2) (player_id_answer p2)" and up1: "\<not> down s1"
      using insert_answer_fresh(3) [OF up fresh] key up by (simp_all add: s1_def)
    have first: "answer s c1 st = (st1, s1)"
      by (simp add: answer_def req1 ins1 answer_reply_def st1_def)
    have second: "answer s1 c2 st1 = (st1, s1)"
      using h by (simp add: answer_def answer_request_def st1_def)
    have ins2: "insert_answer s1 p2
       = (Some (StoreError ''23505'' ''duplicate key value violates unique constraint''), s1)"
      using insert_answer_existing [OF up1 has1] .
    show ?thesis
      using first sel second req2 ins2
      by (intro exI [of _ st1] exI [of _ s1] conjI exI [of _ p2]
            exI [of _ "StoreError ''23505'' ''duplicate key value violates unique constraint''"])
         (simp_all add: st1_def answer_reply_error)
  qed
  from a b show ?thesis by blast
qed

lemma ex_player_open_fields:
  "me ex_player_open = Some ex_aya" "current ex_player_open = Some open_r2"
  "myAnswerChoice ex_player_open = None" "prevRoundId ex_player_open = Some ''r2''"
  by (simp_all add: ex_player_open_def PlayerPage_init_def)

lemma ex_aya_fields: "id_player ex_aya = ''aya''" "room_code_player ex_aya = ''4821''"
  by (simp_all add: ex_aya_def)

lemma ex_store_unfinished_answers:
  "answers_tbl ex_store_unfinished = []"
  "\<not> has_answer ex_store_unfinished ''r2'' ''aya''"
  by (simp_all add: ex_store_unfinished_def has_answer_def)

lemma ex_first_answer:
  "answer ex_store_unfinished A ex_player_open
   = (ex_player_open\<lparr>myAnswerChoice := Some A\<rparr>,
      ex_store_unfinished\<lparr>answers_tbl := [ex_answer A]\<rparr>)"
  by (simp add: answer_def answer_request_def answer_reply_def insert_answer_def
        ex_player_open_fields ex_aya_fields open_r2_fields ex_store_unfinished_fields
        ex_store_unfinished_answers ex_answer_def)

theorem answer_conflict_absorbed_witness:
  "myAnswerChoice (fst (answer ex_store_unfinished A ex_player_open)) = Some A
   \<and> select_answer_choice (snd (answer ex_store_unfinished A ex_player_open)) ''r2'' ''aya'' = Some A
   \<and> answer (snd (answer ex_store_unfinished A ex_player_open)) B
        (fst (answer ex_store_unfinished A ex_player_open))
      = answer ex_store_unfinished A ex_player_open
   \<and> answer (ex_store_unfinished\<lparr>answers_tbl := [ex_answer A]\<rparr>) B ex_player_open
      = (ex_player_open, ex_store_unfinished\<lparr>answers_tbl := [ex_answer A]\<rparr>)"
proof -
  let ?s1 = "ex_store_unfinished\<lparr>answers_tbl := [ex_answer A]\<rparr>"
  have two: "\<exists>st1 s1. answer ex_store_unfinished A ex_player_open = (st1, s1)
           \<and> myAnswerChoice st1 = Some A
           \<and> select_answer_choice s1 ''r2'' ''aya'' = Some A
           \<and> answer s1 B st1 = (st1, s1)"
    using answer_conflict_absorbed [where st = ex_player_open and s = ex_store_unfinished
        and m = ex_aya and r = open_r2 and ?c1.0 = A and ?c2.0 = B and ch = B
        and payload = "ex_answer B" and e = unavailable]
    by (simp add: ex_player_open_fields ex_aya_fields open_r2_fields ex_store_unfinished_fields
          ex_store_unfinished_answers) blast
  have req: "answer_request B ex_player_open = Some (ex_answer B)"
    by (simp add: answer_request_def ex_player_open_fields ex_aya_fields open_r2_fields
          ex_answer_def)
  have ins: "fst (insert_answer ?s1 (ex_answer B))
      = Some (StoreError ''23505'' ''duplicate key value violates unique constraint'')"
    by (simp add: insert_answer_def ex_store_unfinished_fields ex_answer_def)
  have conflict: "answer ?s1 B ex_player_open = (ex_player_open, ?s1)"
    using answer_conflict_absorbed [where st = ex_player_open and s = ?s1
        and ch = B and payload = "ex_answer B"
        and e = "StoreError ''23505'' ''duplicate key value violates unique constraint''"
        and m = ex_aya and r = open_r2 and ?c1.0 = A and ?c2.0 = B]
      req ins
    by simp
  from two conflict show ?thesis by auto
qed

subsection \<open>Re-deriving the pinned choice\<close>

lemma round_effect_new_round:
  assumes "current st = Some r" "id_round r \<noteq> []" "prevRoundId st \<noteq> Some (id_round r)"
  shows "PlayerPage_round_effect st =
           st\<lparr>prevRoundId := Some (id_round r), myAnswerChoice := None,
               lookups := (case me st of None \<Rightarrow> lookups st
                           | Some m \<Rightarrow> lookups st @ [(id_round r, id_player m)])\<rparr>"
  using assms by (simp add: PlayerPage_round_effect_def Let_def split: option.splits)

lemma lookup_done_newest:
  assumes "lookups st = xs @ [(rid, pid)]"
  shows "PlayerPage_lookup_done s (length xs) st
           = PlayerPage_lookup_reply (select_answer_choice s rid pid) (st\<lparr>lookups := xs\<rparr>)"
  using assms by (simp add: PlayerPage_lookup_done_def)

lemma answer_pinned: "myAnswerChoice st \<noteq> None \<Longrightarrow> answer s ch st = (st, s)"
  by (simp add: answer_def answer_request_def split: option.splits)

lemma PlayerPage_reveal_effect_pin:
  "myAnswerChoice (PlayerPage_reveal_effect st) = myAnswerChoice st"
  "prevRoundId (PlayerPage_reveal_effect st) = prevRoundId st"
  "current (PlayerPage_reveal_effect st) = current st"
  "lookups (PlayerPage_reveal_effect st) = lookups st"
  "me (PlayerPage_reveal_effect st) = me st"
  "roomCode (PlayerPage_reveal_effect st) = roomCode st"
  by (simp_all add: PlayerPage_reveal_effect_def PlayerPage_reveal_body_def
        PlayerPage_reveal_cleanup_def clear_revealTimer_def clearInterval_def reset_reveal_def
        start_stepping_def setInterval_def Let_def split: option.splits)

lemma pending_refreshRanks_pin:
  fixes st :: PlayerPage
  shows "myAnswerChoice (pending_refreshRanks s req st) = myAnswerChoice st"
    "prevRoundId (pending_refreshRanks s req st) = prevRoundId st"
    "lookups (pending_refreshRanks s req st) = lookups st"
    "me (pending_refreshRanks s req st) = me st"
    "roomCode (pending_refreshRanks s req st) = roomCode st"
  by (simp_all add: pending_refreshRanks_def refreshRanks_def split: option.splits sum.splits)

lemma insert_answer_has:
  "has_answer s (round_id_answer a) (player_id_answer a) \<Longrightarrow>
   snd (insert_answer s a) = s \<and> fst (insert_answer s a) \<noteq> None"
  by (auto simp: insert_answer_def has_answer_def)

lemma answer_with_row:
  assumes "has_answer s (id_round r) (id_player m)" "me st = Some m" "current st = Some r"
  shows "answer s ch st = (st, s)"
proof (cases "answer_request ch st")
  case None
  then show ?thesis by (simp add: answer_def)
next
  case (Some payload)
  then have key: "round_id_answer payload = id_round r" "player_id_answer payload = id_player m"
    using assms(2,3) by (auto simp: answer_request_def split: if_splits)
  obtain e where e: "fst (insert_answer s payload) = Some e" and s: "snd (insert_answer s payload) = s"
    using insert_answer_has [of s payload] assms(1) key by auto
  then have "insert_answer s payload = (Some e, s)" by (simp add: prod_eq_iff)
  then show ?thesis using Some by (simp add: answer_def answer_reply_error)
qed

text \<open>
  What holds when the reply of a look-up arrives while the round it was sent for is
  still the current one. When the page observes a round id other than the one it saw
  last (after a reload it has seen none), the effect records the id, clears the pinned
  choice and sends the look-up; answered next, the look-up pins the choice of the
  participant's existing row for that round, if there is one, and then every further
  \<open>answer\<close> is refused by the page, whatever the choice. While the round id stays
  the same the effect changes nothing. For a reloaded page with the participant
  restored, the first refresh selects the latest round, and the reply to its look-up
  pins the choice of the participant's row for it. And as long as the row exists,
  \<open>answer\<close> changes neither the store nor the page in any state of the page, also
  before the look-up has set the pin.
\<close>

lemma pinned_choice_in_turn:
  "(current st = Some r \<and> id_round r \<noteq> [] \<and> prevRoundId st \<noteq> Some (id_round r)
      \<and> me st = Some m \<longrightarrow>
        myAnswerChoice (PlayerPage_round_effect st) = None
        \<and> prevRoundId (PlayerPage_round_effect st) = Some (id_round r)
        \<and> lookups (PlayerPage_round_effect st) = lookups st @ [(id_round r, id_player m)]
        \<and> myAnswerChoice (PlayerPage_lookup_done s (length (lookups st)) (PlayerPage_round_effect st))
            = select_answer_choice s (id_round r) (id_player m)
        \<and> (select_answer_choice s (id_round r) (id_player m) \<noteq> None \<longrightarrow>
             (\<forall>ch. answer s ch
                     (PlayerPage_lookup_done s (length (lookups st)) (PlayerPage_round_effect st))
                   = (PlayerPage_lookup_done s (length (lookups st)) (PlayerPage_round_effect st), s))))
   \<and> (current st = Some r \<and> prevRoundId st = Some (id_round r) \<longrightarrow>
        PlayerPage_round_effect st = st)
   \<and> (roomCode st \<noteq> [] \<and> \<not> down s \<and> current st = None \<and> prevRoundId st = None
        \<and> me st = Some m \<and> room_rounds s (roomCode st) \<noteq> []
        \<and> latest = last (sort_key index_no (room_rounds s (roomCode st)))
        \<and> id_round latest \<noteq> [] \<longrightarrow>
        current (PlayerPage_refreshRounds s st) = Some latest
        \<and> lookups (PlayerPage_refreshRounds s st) = lookups st @ [(id_round latest, id_player m)]
        \<and> myAnswerChoice
            (PlayerPage_lookup_done s (length (lookups st)) (PlayerPage_refreshRounds s st))
            = select_answer_choice s (id_round latest) (id_player m))
   \<and> (has_answer s (id_round r) (id_player m) \<and> me st = Some m \<and> current st = Some r \<longrightarrow>
        answer s ch st = (st, s))"
proof -
  have a: "myAnswerChoice (PlayerPage_round_effect st) = None
        \<and> prevRoundId (PlayerPage_round_effect st) = Some (id_round r)
        \<and> lookups (PlayerPage_round_effect st) = lookups st @ [(id_round r, id_player m)]
        \<and> myAnswerChoice (PlayerPage_lookup_done s (length (lookups st)) (PlayerPage_round_effect st))
            = select_answer_choice s (id_round r) (id_player m)
        \<and> (select_answer_choice s (id_round r) (id_player m) \<noteq> None \<longrightarrow>
             (\<forall>ch. answer s ch
                     (PlayerPage_lookup_done s (length (lookups st)) (PlayerPage_round_effect st))
                   = (PlayerPage_lookup_done s (length (lookups st)) (PlayerPage_round_effect st), s)))"
    if h: "current st = Some r \<and> id_round r \<noteq> [] \<and> prevRoundId st \<noteq> Some (id_round r)
      \<and> me st = Some m"
  proof -
    let ?e = "PlayerPage_round_effect st"
    let ?d = "PlayerPage_lookup_done s (length (lookups st)) ?e"
    have e: "myAnswerChoice ?e = None" "prevRoundId ?e = Some (id_round r)"
      "lookups ?e = lookups st @ [(id_round r, id_player m)]"
      using h by (simp_all add: round_effect_new_round)
    have pin: "myAnswerChoice ?d = select_answer_choice s (id_round r) (id_player m)"
      using e by (simp add: lookup_done_newest [OF e(3)] PlayerPage_lookup_reply_def
            split: option.splits)
    have "answer s ch ?d = (?d, s)"
      if "select_answer_choice s (id_round r) (id_player m) \<noteq> None" for ch
      using that pin by (intro answer_pinned) simp
    then show ?thesis using e pin by blast
  qed
  have b: "PlayerPage_round_effect st = st"
    if "current st = Some r \<and> prevRoundId st = Some (id_round r)"
    using that by (simp add: PlayerPage_round_effect_def Let_def)
  have c: "current (PlayerPage_refreshRounds s st) = Some latest
        \<and> lookups (PlayerPage_refreshRounds s st) = lookups st @ [(id_round latest, id_player m)]
        \<and> myAnswerChoice
            (PlayerPage_lookup_done s (length (lookups st)) (PlayerPage_refreshRounds s st))
            = select_answer_choice s (id_round latest) (id_player m)"
    if h: "roomCode st \<noteq> [] \<and> \<not> down s \<and> current st = None \<and> prevRoundId st = None
        \<and> me st = Some m \<and> room_rounds s (roomCode st) \<noteq> []
        \<and> latest = last (sort_key index_no (room_rounds s (roomCode st)))
        \<and> id_round latest \<noteq> []"
  proof -
    define st1 where "st1 = st\<lparr>rounds := sort_key index_no (room_rounds s (roomCode st)),
                               current := Some latest\<rparr>"
    from h have l: "last (sort_key index_no (room_rounds s (roomCode st))) = latest"
      and idl: "id_round latest \<noteq> []" and ne: "room_rounds s (roomCode st) \<noteq> []"
      and rc: "roomCode st \<noteq> []" and up: "\<not> down s" and cur: "current st = None"
      and prev: "prevRoundId st = None" and me: "me st = Some m"
      by blast+
    have r: "refreshRounds s st = (st1, Some (id_round latest))"
      using idl ne cur
      by (simp add: refreshRounds_up [OF rc up] nextCurrent_def sort_key_eq_Nil st1_def l)
    have f: "current st1 = Some latest" "prevRoundId st1 = None" "me st1 = Some m"
      "lookups st1 = lookups st"
      using prev me by (simp_all add: st1_def)
    have re: "PlayerPage_round_effect st1 =
           st1\<lparr>prevRoundId := Some (id_round latest), myAnswerChoice := None,
               lookups := lookups st @ [(id_round latest, id_player m)]\<rparr>"
      using round_effect_new_round [of st1 latest] f idl by simp
    have dep: "map_option id_round (current st1) \<noteq> map_option id_round (current st)"
      using cur f by simp
    have eff: "lookups (PlayerPage_effects st st1) = lookups st @ [(id_round latest, id_player m)]
               \<and> current (PlayerPage_effects st st1) = Some latest"
      using dep f
      by (simp add: PlayerPage_effects_def Let_def re PlayerPage_reveal_effect_pin)
    have lk: "lookups (PlayerPage_refreshRounds s st) = lookups st @ [(id_round latest, id_player m)]"
      and cu: "current (PlayerPage_refreshRounds s st) = Some latest"
      using eff
      by (simp_all add: PlayerPage_refreshRounds_def r pending_refreshRanks_pin
            pending_refreshRanks_fields)
    have "myAnswerChoice
            (PlayerPage_lookup_done s (length (lookups st)) (PlayerPage_refreshRounds s st))
            = select_answer_choice s (id_round latest) (id_player m)"
    proof -
      have none: "myAnswerChoice (PlayerPage_refreshRounds s st) = None"
        using dep f
        by (simp add: PlayerPage_refreshRounds_def r pending_refreshRanks_pin
              PlayerPage_effects_def Let_def re PlayerPage_reveal_effect_pin)
      show ?thesis
        using none by (simp add: lookup_done_newest [OF lk] PlayerPage_lookup_reply_def
              split: option.splits)
    qed
    then show ?thesis using lk cu by blast
  qed
  have d: "answer s ch st = (st, s)"
    if "has_answer s (id_round r) (id_player m) \<and> me st = Some m \<and> current st = Some r"
    using that answer_with_row [of s r m st ch] by blast
  from a b c d show ?thesis by blast
qed

lemma ex_store_answered_fields:
  "\<not> down ex_store_answered" "rounds_tbl ex_store_answered = [hist_r1, open_r2]"
  "room_rounds ex_store_answered ''4821'' = [hist_r1, open_r2]"
  "select_answer_choice ex_store_answered ''r2'' ''aya'' = Some A"
  by (simp_all add: ex_store_answered_def ex_store_unfinished_fields room_rounds_def
        hist_fields open_r2_fields select_answer_choice_def ex_answer_def)

lemma ex_player_reloaded_fields:
  "roomCode ex_player_reloaded = ''4821''" "current ex_player_reloaded = None"
  "prevRoundId ex_player_reloaded = None" "me ex_player_reloaded = Some ex_aya"
  "lookups ex_player_reloaded = []"
  by (simp_all add: ex_player_reloaded_def PlayerPage_init_def)

lemma pinned_choice_in_turn_example:
  "current (PlayerPage_refreshRounds ex_store_answered ex_player_reloaded) = Some open_r2
   \<and> lookups (PlayerPage_refreshRounds ex_store_answered ex_player_reloaded) = [(''r2'', ''aya'')]
   \<and> myAnswerChoice (PlayerPage_lookup_done ex_store_answered 0
        (PlayerPage_refreshRounds ex_store_answered ex_player_reloaded)) = Some A
   \<and> myAnswerChoice (PlayerPage_round_effect
        (ex_player_open\<lparr>prevRoundId := Some ''r1'', myAnswerChoice := Some C\<rparr>)) = None
   \<and> PlayerPage_round_effect ex_player_open = ex_player_open
   \<and> answer ex_store_answered B ex_player_open = (ex_player_open, ex_store_answered)"
proof -
  have latest: "open_r2 = last (sort_key index_no (room_rounds ex_store_answered ''4821''))"
    by (simp add: ex_store_answered_fields hist_fields open_r2_fields)
  have a: "current (PlayerPage_refreshRounds ex_store_answered ex_player_reloaded) = Some open_r2
      \<and> lookups (PlayerPage_refreshRounds ex_store_answered ex_player_reloaded) = [(''r2'', ''aya'')]
      \<and> myAnswerChoice (PlayerPage_lookup_done ex_store_answered 0
        (PlayerPage_refreshRounds ex_store_answered ex_player_reloaded)) = Some A"
    using pinned_choice_in_turn [where st = ex_player_reloaded and s = ex_store_answered
        and m = ex_aya and r = open_r2 and latest = open_r2 and ch = B] latest
    by (simp add: ex_player_reloaded_fields ex_store_answered_fields open_r2_fields ex_aya_fields)
  have c: "myAnswerChoice (PlayerPage_round_effect
        (ex_player_open\<lparr>prevRoundId := Some ''r1'', myAnswerChoice := Some C\<rparr>)) = None"
    using pinned_choice_in_turn [where s = ex_store_unfinished and m = ex_aya and r = open_r2
        and st = "ex_player_open\<lparr>prevRoundId := Some ''r1'', myAnswerChoice := Some C\<rparr>"
        and latest = open_r2 and ch = B]
    by (simp add: ex_player_open_fields open_r2_fields ex_aya_fields)
  have d: "PlayerPage_round_effect ex_player_open = ex_player_open"
    using pinned_choice_in_turn [where st = ex_player_open and s = ex_store_answered
        and m = ex_aya and r = open_r2 and latest = open_r2 and ch = B]
    by (simp add: ex_player_open_fields open_r2_fields)
  have has: "has_answer ex_store_answered ''r2'' ''aya''"
    by (simp add: has_answer_def ex_store_answered_def ex_answer_def)
  have e: "answer ex_store_answered B ex_player_open = (ex_player_open, ex_store_answered)"
    using pinned_choice_in_turn [where st = ex_player_open and s = ex_store_answered
        and m = ex_aya and r = open_r2 and latest = open_r2 and ch = B] has
    by (simp add: ex_player_open_fields open_r2_fields ex_aya_fields)
  from a c d e show ?thesis by blast
qed

lemma ex_store_first_fields:
  "\<not> down ex_store_first" "rounds_tbl ex_store_first = [hist_r1]"
  "answers_tbl ex_store_first = [ex_answer_first]"
  "\<not> down ex_store_second" "rounds_tbl ex_store_second = [hist_r1, open_r2]"
  "answers_tbl ex_store_second = [ex_answer_first]"
  by (simp_all add: ex_store_first_def ex_store_second_def)

lemma ex_lookup_answers:
  "select_answer_choice ex_store_second ''r1'' ''aya'' = Some A"
  "select_answer_choice ex_store_second ''r2'' ''aya'' = None"
  by (simp_all add: select_answer_choice_def ex_store_first_fields ex_answer_first_def)

lemma ex_player_first_fields:
  "roomCode ex_player_first = ''4821''" "current ex_player_first = Some hist_r1"
  "me ex_player_first = Some ex_aya" "prevRoundId ex_player_first = Some ''r1''"
  "myAnswerChoice ex_player_first = None" "lookups ex_player_first = [(''r1'', ''aya'')]"
  by (simp_all add: ex_player_first_def PlayerPage_refreshRounds_def refreshRounds_def
        select_rounds_def nextCurrent_def PlayerPage_effects_def PlayerPage_round_effect_def
        PlayerPage_reveal_effect_pin pending_refreshRanks_pin pending_refreshRanks_fields
        pending_refreshRanks_def refreshRanks_def
        ex_store_first_fields ex_player_reloaded_fields hist_fields ex_aya_fields Let_def
        split: sum.splits)

lemma ex_player_second_fields:
  "current ex_player_second = Some open_r2"
  "me ex_player_second = Some ex_aya" "prevRoundId ex_player_second = Some ''r2''"
  "myAnswerChoice ex_player_second = None"
  "lookups ex_player_second = [(''r1'', ''aya''), (''r2'', ''aya'')]"
  by (simp_all add: ex_player_second_def PlayerPage_refreshRounds_def refreshRounds_def
        select_rounds_def nextCurrent_def PlayerPage_effects_def PlayerPage_round_effect_def
        PlayerPage_reveal_effect_pin pending_refreshRanks_pin pending_refreshRanks_fields
        pending_refreshRanks_def refreshRanks_def
        ex_store_first_fields ex_player_first_fields hist_fields open_r2_fields ex_aya_fields
        Let_def split: sum.splits)

text \<open>
  Claim C9 says that the pinned choice is re-derived from the participant's own row for
  the round, and that observing a new round id clears it so that it is re-derived
  fresh for each round. The code misses this when the reply of a look-up arrives after
  a later round has been observed: the reply is applied to the page as it is, with no
  test that the round it was sent for is still the current one. Aya answered A in
  round 1, which is scored, and reloads her page; the first refresh selects round 1
  and sends the look-up for it. Round 2 is opened, and her page observes it before
  that reply has arrived: the pin is cleared and a look-up for round 2 is sent. Then
  the two replies arrive in the order in which they were sent. The reply for round 1
  pins A; the reply for round 2 finds no row and sets nothing. Her page now shows the
  open round 2 with A pinned although the store holds no answer of hers for round 2,
  and \<open>answer\<close> sends nothing, whatever the choice.
\<close>

theorem lookup_reply_pins_later_round:
  "myAnswerChoice ex_player_first = None
   \<and> lookups ex_player_first = [(''r1'', ''aya'')]
   \<and> current ex_player_second = Some open_r2
   \<and> prevRoundId ex_player_second = Some ''r2''
   \<and> myAnswerChoice ex_player_second = None
   \<and> lookups ex_player_second = [(''r1'', ''aya''), (''r2'', ''aya'')]
   \<and> select_answer_choice ex_store_second ''r2'' ''aya'' = None
   \<and> myAnswerChoice (PlayerPage_lookup_done ex_store_second 0 ex_player_second) = Some A
   \<and> current ex_player_late = Some open_r2
   \<and> status open_r2 = Open
   \<and> lookups ex_player_late = []
   \<and> myAnswerChoice ex_player_late = Some A
   \<and> answer_request A ex_player_late = None
   \<and> answer_request B ex_player_late = None
   \<and> answer_request C ex_player_late = None
   \<and> answer_request D ex_player_late = None
   \<and> answer ex_store_second B ex_player_late = (ex_player_late, ex_store_second)"
proof -
  have one: "PlayerPage_lookup_done ex_store_second 0 ex_player_second
      = ex_player_second\<lparr>lookups := [(''r2'', ''aya'')], myAnswerChoice := Some A\<rparr>"
    by (simp add: PlayerPage_lookup_done_def PlayerPage_lookup_reply_def ex_player_second_fields
          ex_lookup_answers)
  have two: "ex_player_late = ex_player_second\<lparr>lookups := [], myAnswerChoice := Some A\<rparr>"
    unfolding ex_player_late_def one
    by (simp add: PlayerPage_lookup_done_def PlayerPage_lookup_reply_def ex_lookup_answers)
  have req: "answer_request ch ex_player_late = None" for ch
    by (simp add: two answer_request_def ex_player_second_fields split: option.splits)
  have ans: "answer ex_store_second B ex_player_late = (ex_player_late, ex_store_second)"
    by (simp add: answer_def req)
  show ?thesis
    using req ans
    by (simp add: ex_player_first_fields ex_player_second_fields ex_lookup_answers one two
          open_r2_fields)
qed

subsection \<open>Scoring\<close>

lemma mark_scored_fields:
  "id_round (mark_scored rid x) = id_round x" "index_no (mark_scored rid x) = index_no x"
  "room_code_round (mark_scored rid x) = room_code_round x"
  "id_round x = rid \<Longrightarrow> status (mark_scored rid x) = Scored"
  by (simp_all add: mark_scored_def)

lemma insort_key_map:
  assumes "\<And>x. f (g x) = f x"
  shows "insort_key f (g x) (map g ys) = map g (insort_key f x ys)"
  using assms by (induction ys) auto

lemma sort_key_map:
  assumes "\<And>x. f (g x) = f x"
  shows "sort_key f (map g xs) = map g (sort_key f xs)"
  using assms by (induction xs) (auto simp: insort_key_map)

lemma room_rounds_map:
  assumes "rounds_tbl s1 = map (mark_scored rid) (rounds_tbl s)"
  shows "sort_key index_no (room_rounds s1 rc)
       = map (mark_scored rid) (sort_key index_no (room_rounds s rc))"
proof -
  have "room_rounds s1 rc = map (mark_scored rid) (room_rounds s rc)"
    by (simp add: room_rounds_def assms filter_map comp_def mark_scored_fields)
  then show ?thesis by (simp add: sort_key_map mark_scored_fields)
qed

lemma find_distinct_only:
  assumes "find (\<lambda>r. id_round r = rid) xs = Some r0" "distinct (map id_round xs)"
    "x \<in> set xs" "id_round x = rid"
  shows "x = r0"
proof -
  have "r0 \<in> set xs" "id_round r0 = rid" using find_same_id [OF assms(1)] by simp_all
  then show ?thesis using assms(2,3,4) by (metis distinct_map inj_onD)
qed

lemma rpc_success:
  assumes ok: "fst (apply_scores_for_round s rid a b c) = None"
    and ids: "distinct (map id_round (rounds_tbl s))"
  shows "rounds_tbl (snd (apply_scores_for_round s rid a b c))
           = map (mark_scored rid) (rounds_tbl s)"
    and "\<not> down (snd (apply_scores_for_round s rid a b c))"
    and "rpc_log (snd (apply_scores_for_round s rid a b c)) = rpc_log s @ [(rid, a, b, c)]"
proof -
  from ok have up: "\<not> down s"
    by (auto simp: apply_scores_for_round_def Let_def split: if_splits)
  from ok up obtain r0 where r0: "find (\<lambda>r. id_round r = rid) (rounds_tbl s) = Some r0"
    by (cases "find (\<lambda>r. id_round r = rid) (rounds_tbl s)")
       (auto simp: apply_scores_for_round_def Let_def)
  from ok up r0 have cc: "correct_choice r0 \<noteq> None"
    by (auto simp: apply_scores_for_round_def Let_def split: if_splits)
  show "\<not> down (snd (apply_scores_for_round s rid a b c))"
    using up r0 cc by (auto simp: apply_scores_for_round_def Let_def)
  show "rpc_log (snd (apply_scores_for_round s rid a b c)) = rpc_log s @ [(rid, a, b, c)]"
    using up r0 cc by (auto simp: apply_scores_for_round_def Let_def)
  show "rounds_tbl (snd (apply_scores_for_round s rid a b c))
           = map (mark_scored rid) (rounds_tbl s)"
  proof (cases "status r0 = Scored")
    case False
    then show ?thesis
      using up r0 cc by (auto simp: apply_scores_for_round_def Let_def mark_scored_def)
  next
    case True
    have "mark_scored rid x = x" if "x \<in> set (rounds_tbl s)" for x
    proof (cases "id_round x = rid")
      case False
      then show ?thesis by (simp add: mark_scored_def)
    next
      case same: True
      have "x = r0" using find_distinct_only [OF r0 ids that same] .
      then show ?thesis using True by (simp add: mark_scored_def)
    qed
    then have "map (mark_scored rid) (rounds_tbl s) = rounds_tbl s"
      by (simp add: map_idI)
    then show ?thesis
      using up r0 cc True by (auto simp: apply_scores_for_round_def Let_def)
  qed
qed

lemma nextCurrent_all_scored:
  assumes "list \<noteq> []" "status (last list) = Scored"
    "\<And>x. x \<in> set list \<Longrightarrow> id_round x = id_round c \<Longrightarrow> status x = Scored"
  shows "\<exists>x. nextCurrent list (Some c) = Some x \<and> status x = Scored"
proof (cases "find (\<lambda>r. id_round r = id_round c) list")
  case None
  then show ?thesis using assms(1,2) by (simp add: nextCurrent_def Let_def)
next
  case (Some same)
  then have "status same = Scored" using find_same_id [OF Some] assms(3) by blast
  then show ?thesis using Some assms(1,2) by (simp add: nextCurrent_def Let_def)
qed

lemma GMPage_refreshRounds_current:
  "current (GMPage_refreshRounds s gm) = current (fst (refreshRounds s gm))"
  by (cases "refreshRounds s gm")
     (simp add: GMPage_refreshRounds_def pending_refreshRanks_fields GMPage_effects_fields)

lemma applyScores_guard:
  "current gm = None \<or> (\<exists>c. current gm = Some c \<and> (correct_choice c = None \<or> status c = Scored))
     \<or> isScoring gm \<Longrightarrow> applyScores s gm = (gm, s)"
  by (auto simp: applyScores_def split: option.splits)

lemma applyScores_store:
  assumes "current gm = Some c" "correct_choice c \<noteq> None" "status c \<noteq> Scored"
    "\<not> isScoring gm"
  shows "snd (applyScores s gm)
       = snd (apply_scores_for_round s (id_round c) (w1 gm) (w2 gm) (wOther gm))"
proof (cases "apply_scores_for_round s (id_round c) (w1 gm) (w2 gm) (wOther gm)")
  case (Pair err s1)
  then show ?thesis using assms
    by (cases err) (auto simp: applyScores_def Let_def)
qed

lemma applyScores_refused_in_turn:
  "((current gm = None
      \<or> (\<exists>c'. current gm = Some c' \<and> (correct_choice c' = None \<or> status c' = Scored))
      \<or> isScoring gm) \<longrightarrow> applyScores s gm = (gm, s))
   \<and> (roomCode gm \<noteq> [] \<and> current gm = Some c \<and> correct_choice c \<noteq> None
        \<and> status c \<noteq> Scored \<and> \<not> isScoring gm
        \<and> fst (apply_scores_for_round s (id_round c) (w1 gm) (w2 gm) (wOther gm)) = None
        \<and> distinct (map id_round (rounds_tbl s))
        \<and> room_rounds s (roomCode gm) \<noteq> []
        \<and> id_round (last (sort_key index_no (room_rounds s (roomCode gm)))) = id_round c \<longrightarrow>
        (\<exists>gm1 s1. applyScores s gm = (gm1, s1)
           \<and> rpc_log s1 = rpc_log s @ [(id_round c, w1 gm, w2 gm, wOther gm)]
           \<and> (\<exists>x. current gm1 = Some x \<and> id_round x = id_round c \<and> status x = Scored)
           \<and> applyScores s1 gm1 = (gm1, s1)))"
proof -
  have a: "applyScores s gm = (gm, s)"
    if "current gm = None
      \<or> (\<exists>c'. current gm = Some c' \<and> (correct_choice c' = None \<or> status c' = Scored))
      \<or> isScoring gm"
    using that by (rule applyScores_guard)
  have b: "\<exists>gm1 s1. applyScores s gm = (gm1, s1)
           \<and> rpc_log s1 = rpc_log s @ [(id_round c, w1 gm, w2 gm, wOther gm)]
           \<and> (\<exists>x. current gm1 = Some x \<and> id_round x = id_round c \<and> status x = Scored)
           \<and> applyScores s1 gm1 = (gm1, s1)"
    if h: "roomCode gm \<noteq> [] \<and> current gm = Some c \<and> correct_choice c \<noteq> None
        \<and> status c \<noteq> Scored \<and> \<not> isScoring gm
        \<and> fst (apply_scores_for_round s (id_round c) (w1 gm) (w2 gm) (wOther gm)) = None
        \<and> distinct (map id_round (rounds_tbl s))
        \<and> room_rounds s (roomCode gm) \<noteq> []
        \<and> id_round (last (sort_key index_no (room_rounds s (roomCode gm)))) = id_round c"
  proof -
    from h have rc: "roomCode gm \<noteq> []" and cur: "current gm = Some c"
      and cc: "correct_choice c \<noteq> None" and st: "status c \<noteq> Scored" and fl: "\<not> isScoring gm"
      and ok: "fst (apply_scores_for_round s (id_round c) (w1 gm) (w2 gm) (wOther gm)) = None"
      and ids: "distinct (map id_round (rounds_tbl s))"
      and ne: "room_rounds s (roomCode gm) \<noteq> []"
      and lt: "id_round (last (sort_key index_no (room_rounds s (roomCode gm)))) = id_round c"
      by blast+
    define s1 where "s1 = snd (apply_scores_for_round s (id_round c) (w1 gm) (w2 gm) (wOther gm))"
    define gm3 where "gm3 = refreshPlayers s1 (gm\<lparr>isScoring := False\<rparr>)"
    define gm1 where "gm1 = GMPage_refreshRounds s1 gm3"
    have rpc: "apply_scores_for_round s (id_round c) (w1 gm) (w2 gm) (wOther gm) = (None, s1)"
      using ok by (simp add: s1_def prod_eq_iff)
    have first: "applyScores s gm = (gm1, s1)"
      using cur cc st fl by (auto simp: applyScores_def rpc gm1_def gm3_def)
    have s1: "rounds_tbl s1 = map (mark_scored (id_round c)) (rounds_tbl s)" "\<not> down s1"
      "rpc_log s1 = rpc_log s @ [(id_round c, w1 gm, w2 gm, wOther gm)]"
      using rpc_success [OF ok ids] by (simp_all add: s1_def)
    have gm3: "roomCode gm3 = roomCode gm" "current gm3 = Some c"
      using cur by (simp_all add: gm3_def refreshPlayers_def split: sum.splits)
    let ?list = "sort_key index_no (room_rounds s (roomCode gm))"
    let ?list1 = "map (mark_scored (id_round c)) ?list"
    have list1: "sort_key index_no (room_rounds s1 (roomCode gm)) = ?list1"
      using room_rounds_map [OF s1(1)] .
    have lne: "?list \<noteq> []" using ne by (simp add: sort_key_eq_Nil)
    have cur1: "current gm1 = nextCurrent ?list1 (Some c)"
      using rc s1(2) gm3
      by (simp add: gm1_def GMPage_refreshRounds_current refreshRounds_current list1)
    have last1: "status (last ?list1) = Scored"
      using lne lt by (simp add: last_map mark_scored_fields)
    have all1: "status x = Scored" if "x \<in> set ?list1" "id_round x = id_round c" for x
      using that by (auto simp: mark_scored_def split: if_splits)
    have lid: "id_round (last ?list1) = id_round c"
      using lne lt by (simp add: last_map mark_scored_fields)
    obtain x where x: "current gm1 = Some x" "status x = Scored"
      using nextCurrent_all_scored [of ?list1 c] lne last1 all1 cur1 by auto
    have xid: "id_round x = id_round c"
    proof (cases "find (\<lambda>r. id_round r = id_round c) ?list1")
      case None
      then show ?thesis using x(1) cur1 lne lid by (simp add: nextCurrent_def Let_def)
    next
      case (Some same)
      then show ?thesis using x(1) cur1 lne lid find_same_id [OF Some]
        by (auto simp: nextCurrent_def Let_def split: if_splits)
    qed
    have second: "applyScores s1 gm1 = (gm1, s1)"
      using x by (intro applyScores_guard) simp
    show ?thesis using first s1(3) x xid second by blast
  qed
  from a b show ?thesis by blast
qed

lemma find_map_mark_scored:
  "find (\<lambda>r. id_round r = rid) (map (mark_scored rid') xs)
     = map_option (mark_scored rid') (find (\<lambda>r. id_round r = rid) xs)"
  by (induction xs) (auto simp: mark_scored_fields)

lemma rpc_again:
  assumes ok: "fst (apply_scores_for_round s rid a b c) = None"
  shows "players_tbl (snd (apply_scores_for_round
            (snd (apply_scores_for_round s rid a b c)) rid a' b' c'))
         = players_tbl (snd (apply_scores_for_round s rid a b c))"
proof -
  from ok have up: "\<not> down s"
    by (auto simp: apply_scores_for_round_def Let_def split: if_splits)
  from ok up obtain r0 where r0: "find (\<lambda>r. id_round r = rid) (rounds_tbl s) = Some r0"
    by (cases "find (\<lambda>r. id_round r = rid) (rounds_tbl s)")
       (auto simp: apply_scores_for_round_def Let_def)
  from ok up r0 have cc: "correct_choice r0 \<noteq> None"
    by (auto simp: apply_scores_for_round_def Let_def split: if_splits)
  have rid: "id_round r0 = rid" using find_same_id [OF r0] by simp
  define s1 where "s1 = snd (apply_scores_for_round s rid a b c)"
  have "\<not> down s1 \<and> (\<exists>r1. find (\<lambda>r. id_round r = rid) (rounds_tbl s1) = Some r1
            \<and> correct_choice r1 \<noteq> None \<and> status r1 = Scored)"
  proof (cases "status r0 = Scored")
    case True
    then show ?thesis using up r0 cc
      by (auto simp: s1_def apply_scores_for_round_def Let_def)
  next
    case False
    have "rounds_tbl s1 = map (mark_scored rid) (rounds_tbl s)" "\<not> down s1"
      using False up r0 cc
      by (auto simp: s1_def apply_scores_for_round_def Let_def mark_scored_def)
    then show ?thesis using r0 cc rid
      by (auto simp: find_map_mark_scored mark_scored_def)
  qed
  then have "players_tbl (snd (apply_scores_for_round s1 rid a' b' c')) = players_tbl s1"
    by (auto simp: apply_scores_for_round_def Let_def)
  then show ?thesis by (simp add: s1_def)
qed

lemma applyScores_store_cases:
  "snd (applyScores s gm) = s
   \<or> (\<exists>c. current gm = Some c
        \<and> snd (applyScores s gm)
           = snd (apply_scores_for_round s (id_round c) (w1 gm) (w2 gm) (wOther gm)))"
proof (cases "current gm")
  case None
  then show ?thesis by (simp add: applyScores_def)
next
  case (Some c)
  show ?thesis
  proof (cases "correct_choice c \<noteq> None \<and> status c \<noteq> Scored \<and> \<not> isScoring gm")
    case True
    then show ?thesis using Some applyScores_store [of gm c s] by simp
  next
    case False
    then have "applyScores s gm = (gm, s)" using Some by (intro applyScores_guard) auto
    then show ?thesis by simp
  qed
qed

lemma applyScores_after_success:
  assumes "current gm = Some c" "correct_choice c \<noteq> None" "status c \<noteq> Scored"
    "\<not> isScoring gm"
    "fst (apply_scores_for_round s (id_round c) (w1 gm) (w2 gm) (wOther gm)) = None"
    "current gm' = Some c'" "id_round c' = id_round c"
  shows "players_tbl (snd (applyScores (snd (applyScores s gm)) gm'))
       = players_tbl (snd (applyScores s gm))"
proof -
  have s1: "snd (applyScores s gm)
      = snd (apply_scores_for_round s (id_round c) (w1 gm) (w2 gm) (wOther gm))"
    using assms(1-4) by (rule applyScores_store)
  show ?thesis
    using applyScores_store_cases [of "snd (applyScores s gm)" gm']
      rpc_again [OF assms(5)] assms(6,7)
    by (auto simp: s1)
qed

text \<open>
  Claim C1. If no round is selected, or the current round has no correct choice, or
  its status is already \<open>scored\<close>, or a scoring call of this session is in flight,
  \<open>applyScores\<close> returns the page and the store as they were: no call of the scoring
  procedure is issued (the log of calls is part of the store) and no local state
  changes. Hence the second of two invocations awards nothing: when the first
  invocation succeeded for the latest round of the room, it issued exactly one call,
  the refreshed current round is that round with the status \<open>scored\<close>, and the second
  invocation changes neither the page nor the store. And whatever a page still shows
  of that round after the first success, a further invocation leaves every cumulative
  score as it is, since the scoring procedure does nothing for a scored round.
\<close>

theorem applyScores_refused:
  "((current gm = None
      \<or> (\<exists>c'. current gm = Some c' \<and> (correct_choice c' = None \<or> status c' = Scored))
      \<or> isScoring gm) \<longrightarrow> applyScores s gm = (gm, s))
   \<and> (roomCode gm \<noteq> [] \<and> current gm = Some c \<and> correct_choice c \<noteq> None
        \<and> status c \<noteq> Scored \<and> \<not> isScoring gm
        \<and> fst (apply_scores_for_round s (id_round c) (w1 gm) (w2 gm) (wOther gm)) = None
        \<and> distinct (map id_round (rounds_tbl s))
        \<and> room_rounds s (roomCode gm) \<noteq> []
        \<and> id_round (last (sort_key index_no (room_rounds s (roomCode gm)))) = id_round c \<longrightarrow>
        (\<exists>gm1 s1. applyScores s gm = (gm1, s1)
           \<and> rpc_log s1 = rpc_log s @ [(id_round c, w1 gm, w2 gm, wOther gm)]
           \<and> (\<exists>x. current gm1 = Some x \<and> id_round x = id_round c \<and> status x = Scored)
           \<and> applyScores s1 gm1 = (gm1, s1)))
   \<and> (current gm = Some c \<and> correct_choice c \<noteq> None \<and> status c \<noteq> Scored
        \<and> \<not> isScoring gm
        \<and> fst (apply_scores_for_round s (id_round c) (w1 gm) (w2 gm) (wOther gm)) = None
        \<and> current gm' = Some c2 \<and> id_round c2 = id_round c \<longrightarrow>
        players_tbl (snd (applyScores (snd (applyScores s gm)) gm'))
          = players_tbl (snd (applyScores s gm)))"
  using applyScores_refused_in_turn [of gm s c] applyScores_after_success [of gm c s gm' c2]
  by blast

lemma ex_gm_scoring_fields:
  "roomCode ex_gm_scoring = ''4821''" "current ex_gm_scoring = Some closed_r1"
  "\<not> isScoring ex_gm_scoring" "w1 ex_gm_scoring = 100" "w2 ex_gm_scoring = 70"
  "wOther ex_gm_scoring = 20"
  by (simp_all add: ex_gm_scoring_def GMPage_init_def)

lemma ex_store_scoring_fields:
  "\<not> down ex_store_scoring" "rounds_tbl ex_store_scoring = [closed_r1]"
  "players_tbl ex_store_scoring = [ex_ken, ex_aya]" "rpc_log ex_store_scoring = []"
  "rank_view ex_store_scoring = [ex_ranks ! 0, ex_ranks ! 1]"
  by (simp_all add: ex_store_scoring_def)

lemma ex_scoring_rpc:
  "fst (apply_scores_for_round ex_store_scoring ''r1'' 100 70 20) = None"
  "map total_score (players_tbl (snd (apply_scores_for_round ex_store_scoring ''r1'' 100 70 20)))
     = [100, 0]"
  by (simp_all add: apply_scores_for_round_def Let_def ex_store_scoring_def closed_r1_def
        points_for_def award_def ex_ranks_def ex_ken_def ex_aya_def)

theorem applyScores_refused_witness:
  "map total_score (players_tbl (snd (applyScores ex_store_scoring ex_gm_scoring))) = [100, 0]
   \<and> rpc_log (snd (applyScores ex_store_scoring ex_gm_scoring)) = [(''r1'', 100, 70, 20)]
   \<and> applyScores (snd (applyScores ex_store_scoring ex_gm_scoring))
        (fst (applyScores ex_store_scoring ex_gm_scoring))
      = applyScores ex_store_scoring ex_gm_scoring
   \<and> map total_score (players_tbl
        (snd (applyScores (snd (applyScores ex_store_scoring ex_gm_scoring)) ex_gm_scoring)))
      = [100, 0]
   \<and> applyScores ex_store_scoring (ex_gm_scoring\<lparr>isScoring := True\<rparr>)
      = (ex_gm_scoring\<lparr>isScoring := True\<rparr>, ex_store_scoring)
   \<and> applyScores ex_store_scoring (ex_gm_scoring\<lparr>current := None\<rparr>)
      = (ex_gm_scoring\<lparr>current := None\<rparr>, ex_store_scoring)"
proof -
  have rows: "room_rounds ex_store_scoring ''4821'' = [closed_r1]"
    by (simp add: room_rounds_def ex_store_scoring_fields closed_r1_fields)
  note inst = applyScores_refused [of ex_gm_scoring ex_store_scoring closed_r1 ex_gm_scoring closed_r1]
  have two: "\<exists>gm1 s1. applyScores ex_store_scoring ex_gm_scoring = (gm1, s1)
           \<and> rpc_log s1 = [(''r1'', 100, 70, 20)]
           \<and> applyScores s1 gm1 = (gm1, s1)"
    using inst ex_scoring_rpc(1)
    by (simp add: ex_gm_scoring_fields ex_store_scoring_fields closed_r1_fields rows) blast
  have pts: "map total_score (players_tbl (snd (applyScores ex_store_scoring ex_gm_scoring)))
      = [100, 0]"
    using ex_scoring_rpc(2) applyScores_store [of ex_gm_scoring closed_r1 ex_store_scoring]
    by (simp add: ex_gm_scoring_fields closed_r1_fields)
  have stale: "players_tbl
        (snd (applyScores (snd (applyScores ex_store_scoring ex_gm_scoring)) ex_gm_scoring))
      = players_tbl (snd (applyScores ex_store_scoring ex_gm_scoring))"
    using inst ex_scoring_rpc(1)
    by (simp add: ex_gm_scoring_fields closed_r1_fields)
  have c: "applyScores ex_store_scoring (ex_gm_scoring\<lparr>isScoring := True\<rparr>)
      = (ex_gm_scoring\<lparr>isScoring := True\<rparr>, ex_store_scoring)"
    using applyScores_refused [of "ex_gm_scoring\<lparr>isScoring := True\<rparr>" ex_store_scoring
        closed_r1 ex_gm_scoring closed_r1]
    by simp
  have d: "applyScores ex_store_scoring (ex_gm_scoring\<lparr>current := None\<rparr>)
      = (ex_gm_scoring\<lparr>current := None\<rparr>, ex_store_scoring)"
    using applyScores_refused [of "ex_gm_scoring\<lparr>current := None\<rparr>" ex_store_scoring
        closed_r1 ex_gm_scoring closed_r1]
    by simp
  from two pts stale c d show ?thesis by auto
qed

subsection \<open>Two overlapping invocations of \<open>startReveal\<close>\<close>

lemma startRevealLocal_of_same: "startRevealLocal_of gm gm = startRevealLocal gm"
  by (simp add: startRevealLocal_of_def startRevealLocal_def start_stepping_def)

lemma startReveal_halves:
  "startReveal s gm =
     (case startReveal_request gm of
        None \<Rightarrow> (alert AlertChooseCorrectFirst gm, s)
      | Some rid \<Rightarrow>
         (case update_reveal_started s rid of
            (err, s1) \<Rightarrow> (startReveal_reply gm err gm, s1)))"
  by (auto simp: startReveal_def startReveal_request_def startReveal_reply_def
        startRevealLocal_of_same split: option.splits prod.splits)

text \<open>
  Claim C10 says that at most one reveal stepping timer can be running on a client,
  because the start path is a no-op while a reveal is active. The code misses this
  when the game master clicks the reveal button twice before the first write has
  returned. Both clicks are handled in the same render, where the button is enabled
  and \<open>revealActive\<close> is false. The first reply starts the reveal and timer 1. The
  second reply runs \<open>startRevealLocal\<close> of the same render, whose guard still reads
  \<open>revealActive\<close> as false although the reveal is active: it starts timer 2 and
  overwrites the ref. Two timers now step the count, which reaches 3 after one tick
  of each; the tick that reaches 3 clears only the timer of the ref, and timer 1 keeps
  running with nothing left to clear it.
\<close>

theorem startReveal_twice_two_timers:
  "\<not> startReveal_disabled ex_gm_observing
   \<and> startReveal_request ex_gm_observing = Some ''r1''
   \<and> revealActive (startReveal_reply ex_gm_observing None ex_gm_observing)
   \<and> intervals (startReveal_reply ex_gm_observing None ex_gm_observing) = [(1, 3)]
   \<and> intervals (startReveal_reply ex_gm_observing None
        (startReveal_reply ex_gm_observing None ex_gm_observing)) = [(1, 3), (2, 3)]
   \<and> revealTimer (startReveal_reply ex_gm_observing None
        (startReveal_reply ex_gm_observing None ex_gm_observing)) = Some 2
   \<and> revealShown (interval_tick 2 (interval_tick 1
        (startReveal_reply ex_gm_observing None
          (startReveal_reply ex_gm_observing None ex_gm_observing)))) = 3
   \<and> intervals (interval_tick 1 (interval_tick 2 (interval_tick 1
        (startReveal_reply ex_gm_observing None
          (startReveal_reply ex_gm_observing None ex_gm_observing))))) = [(1, 3)]"
proof -
  have k: "correctOnlyRanks ex_gm_observing = [ex_ranks ! 0, ex_ranks ! 2, ex_ranks ! 3]"
    "\<not> revealActive ex_gm_observing"
    by (simp_all add: correctOnlyRanks_def ex_gm_observing_def closed_r1_def ex_ranks_def
          GMPage_init_def)
  have g1: "startReveal_reply ex_gm_observing None ex_gm_observing
      = ex_gm_observing\<lparr>revealActive := True, revealShown := 1, revealTimer := Some 1,
           intervals := [(1, 3)], last_handle := 1\<rparr>"
    by (simp add: startReveal_reply_def startRevealLocal_of_def setInterval_def k)
       (simp add: ex_gm_observing_def GMPage_init_def)
  have g2: "startReveal_reply ex_gm_observing None
        (ex_gm_observing\<lparr>revealActive := True, revealShown := 1, revealTimer := Some 1,
           intervals := [(1, 3)], last_handle := 1\<rparr>)
      = ex_gm_observing\<lparr>revealActive := True, revealShown := 1, revealTimer := Some 2,
           intervals := [(1, 3), (2, 3)], last_handle := 2\<rparr>"
    by (simp add: startReveal_reply_def startRevealLocal_of_def setInterval_def k)
  have en: "\<not> startReveal_disabled ex_gm_observing"
    "startReveal_request ex_gm_observing = Some ''r1''"
    by (simp_all add: startReveal_disabled_def startReveal_request_def ex_gm_observing_def
          closed_r1_def ex_ranks_def)
  show ?thesis
    unfolding g1 g2 using en
    by (simp add: interval_tick_def clear_revealTimer_def clearInterval_def Let_def)
qed

end
